theory Spec2Isabelle
  imports Main "HOL-Library.Word" "HOL-Library.Sublist"
begin

section \<open>Strings, numbers and errors of the JavaScript side\<close>

text \<open>
  A JavaScript string is a sequence of UTF-16 code units. Literals of the source are
  written \<open>js ''...''\<close>; all of them are ASCII.
\<close>

type_synonym jsstring = "16 word list"

definition js :: "string \<Rightarrow> jsstring" where
  "js s = map of_char s"

text \<open>
  \<open>String.prototype.trim\<close> removes WhiteSpace and LineTerminator code units from both
  ends (ECMAScript: TAB, LF, VT, FF, CR, SP, NBSP, the Unicode space separators,
  LS, PS and the byte order mark).
\<close>

definition is_js_space :: "16 word \<Rightarrow> bool" where
  "is_js_space c =
     (c = 0x0009 \<or> c = 0x000A \<or> c = 0x000B \<or> c = 0x000C \<or> c = 0x000D \<or> c = 0x0020
      \<or> c = 0x00A0 \<or> c = 0x1680 \<or> (0x2000 \<le> c \<and> c \<le> 0x200A)
      \<or> c = 0x2028 \<or> c = 0x2029 \<or> c = 0x202F \<or> c = 0x205F \<or> c = 0x3000 \<or> c = 0xFEFF)"

definition trim :: "jsstring \<Rightarrow> jsstring" where
  "trim s = rev (dropWhile is_js_space (rev (dropWhile is_js_space s)))"

text \<open>
  \<open>s.split(',')\<close>: the pieces between the separators, empty pieces kept; the
  empty string gives one empty piece.
\<close>

fun split_on :: "'a \<Rightarrow> 'a list \<Rightarrow> 'a list list" where
  "split_on sep [] = [[]]"
| "split_on sep (c # cs) =
     (if c = sep then [] # split_on sep cs
      else (case split_on sep cs of
              [] \<Rightarrow> [[c]]
            | p # ps \<Rightarrow> (c # p) # ps))"

definition comma :: "16 word" where
  "comma = 0x002C"

text \<open>Decimal rendering of a process id (\<open>pid.toString()\<close>).\<close>

fun dec :: "nat \<Rightarrow> jsstring" where
  "dec n = (if n < 10 then [of_nat (48 + n)] else dec (n div 10) @ [of_nat (48 + n mod 10)])"

text \<open>The result of \<open>parseInt\<close> on the pid file: an integer or NaN.\<close>

datatype js_number = NaN | Num int

text \<open>A template literal prints a missing value as \<open>undefined\<close>.\<close>

fun or_undefined :: "jsstring option \<Rightarrow> jsstring" where
  "or_undefined None = js ''undefined''"
| "or_undefined (Some s) = s"

text \<open>A thrown \<open>Error\<close>, with \<open>Error.prototype.toString\<close> as \<open>${error}\<close> applies it.\<close>

datatype js_error = JsError (err_name: jsstring) (err_message: jsstring)

fun error_toString :: "js_error \<Rightarrow> jsstring" where
  "error_toString (JsError n m) =
     (if n = [] then m else if m = [] then n else n @ js '': '' @ m)"

section \<open>Inputs\<close>

text \<open>
  The action's inputs, as \<open>core.getInput\<close> returns them when the module is loaded
  (a missing input is the empty string).
\<close>

record inputs =
  name :: jsstring
  extraPullNames :: jsstring
  signingKey :: jsstring
  authToken :: jsstring
  skipPush :: jsstring
  pathsToPush :: jsstring
  pushFilter :: jsstring
  cachixArgs :: jsstring
  installCommandInput :: jsstring
  skipAddingSubstituter :: jsstring
  useDaemon :: jsstring

definition installCommand :: "inputs \<Rightarrow> jsstring" where
  "installCommand inp =
     (if installCommandInput inp = []
      then js ''nix-env --quiet -j8 -iA cachix -f https://cachix.org/api/v1/install''
      else installCommandInput inp)"

definition ENV_CACHIX_DAEMON_DIR :: jsstring where
  "ENV_CACHIX_DAEMON_DIR = js ''CACHIX_DAEMON_DIR''"

section \<open>Effects\<close>

text \<open>
  Every call that leaves the program is an event of the trace, in the order the calls are
  issued. A call is recorded when it is issued, whether or not it then fails.
\<close>

datatype stdio = Ignore | Fd nat

datatype event =
    StartGroup jsstring
  | EndGroup
  | Info jsstring
  | Debug jsstring
  | SetFailed jsstring
  | ExportVariable jsstring jsstring
  | WhichSync jsstring
  | Exec jsstring "jsstring list"
  | Mkdtemp jsstring
  | OpenSync jsstring jsstring
  | Spawn jsstring "jsstring list" "stdio list" bool
  | WriteFile jsstring jsstring
  | Chmod jsstring nat
  | Mkdir jsstring bool
  | WriteSync nat jsstring
  | Close nat
  | Unref
  | ReadFile jsstring
  | TailNew jsstring bool
  | TailOn jsstring
  | Kill js_number jsstring
  | TailUnwatch

text \<open>
  \<open>spawn\<close> either throws at once, or returns a child without pid that later emits
  \<open>error\<close>, or returns a child with a pid.
\<close>

datatype spawn_result = SpawnThrows js_error | SpawnFailed js_error | Spawned nat

text \<open>
  The world outside the program: what each call answers, given the calls issued so far.
  \<open>fails\<close> decides the calls that return nothing; the other fields decide the calls
  that return a value. \<open>path_join\<close> and \<open>parseInt\<close> are the library functions of
  these names, \<open>number_text\<close> is the text that a template literal prints for a number,
  \<open>dirname\<close> is \<open>__dirname\<close>.
\<close>

record world =
  fails :: "event list \<Rightarrow> event \<Rightarrow> js_error option"
  which_result :: "event list \<Rightarrow> jsstring \<Rightarrow> jsstring option"
  mkdtemp_result :: "event list \<Rightarrow> jsstring \<Rightarrow> js_error + jsstring"
  openSync_result :: "event list \<Rightarrow> jsstring \<Rightarrow> js_error + nat"
  spawn_outcome :: "event list \<Rightarrow> jsstring \<Rightarrow> jsstring list \<Rightarrow> spawn_result"
  readFile_result :: "event list \<Rightarrow> jsstring \<Rightarrow> js_error + jsstring"
  env :: "jsstring \<Rightarrow> jsstring option"
  os_tmpdir :: jsstring
  path_join :: "jsstring \<Rightarrow> jsstring \<Rightarrow> jsstring"
  parseInt :: "jsstring \<Rightarrow> js_number"
  number_text :: "js_number \<Rightarrow> jsstring"
  dirname :: jsstring

text \<open>
  The state of a run: the trace, and the errors that no \<open>catch\<close> of the program can
  see (the rejection of a promise that is not awaited, an \<open>error\<close> event without a
  listener). What the runtime does with those is not part of the function bodies; the
  trace lists the calls the bodies issue when they are left to run.
\<close>

record run_state =
  trace :: "event list"
  unhandled :: "js_error list"

type_synonym 'a io = "run_state \<Rightarrow> (js_error + 'a) \<times> run_state"

definition io_return :: "'a \<Rightarrow> 'a io" where
  "io_return x s = (Inr x, s)"

definition io_bind :: "'a io \<Rightarrow> ('a \<Rightarrow> 'b io) \<Rightarrow> 'b io" where
  "io_bind m f s = (case m s of (Inl e, s') \<Rightarrow> (Inl e, s') | (Inr x, s') \<Rightarrow> f x s')"

definition io_seq :: "unit io \<Rightarrow> 'b io \<Rightarrow> 'b io" where
  "io_seq m n = io_bind m (\<lambda>_. n)"

definition io_catch :: "'a io \<Rightarrow> (js_error \<Rightarrow> 'a io) \<Rightarrow> 'a io" where
  "io_catch m h s = (case m s of (Inl e, s') \<Rightarrow> h e s' | (Inr x, s') \<Rightarrow> (Inr x, s'))"

fun io_seqs :: "unit io list \<Rightarrow> unit io" where
  "io_seqs [] = io_return ()"
| "io_seqs (m # ms) = io_seq m (io_seqs ms)"

definition io_when :: "bool \<Rightarrow> unit io \<Rightarrow> unit io" where
  "io_when b m = (if b then m else io_return ())"

definition log_event :: "event \<Rightarrow> run_state \<Rightarrow> run_state" where
  "log_event ev s = s\<lparr>trace := trace s @ [ev]\<rparr>"

text \<open>A call that cannot fail (the \<open>core\<close> logging functions, \<open>on\<close>, \<open>unref\<close>).\<close>

definition emit :: "event \<Rightarrow> unit io" where
  "emit ev s = (Inr (), log_event ev s)"

text \<open>A call whose failure is thrown into the caller: awaited, or synchronous.\<close>

definition call :: "world \<Rightarrow> event \<Rightarrow> unit io" where
  "call w ev s =
     (case fails w (trace s) ev of
        Some e \<Rightarrow> (Inl e, log_event ev s)
      | None \<Rightarrow> (Inr (), log_event ev s))"

text \<open>
  A call that returns a promise nobody awaits, or reports through a default callback:
  its failure never reaches the caller.
\<close>

definition floating :: "world \<Rightarrow> event \<Rightarrow> unit io" where
  "floating w ev s =
     (case fails w (trace s) ev of
        Some e \<Rightarrow> (Inr (), (log_event ev s)\<lparr>unhandled := unhandled s @ [e]\<rparr>)
      | None \<Rightarrow> (Inr (), log_event ev s))"

definition call_value :: "event \<Rightarrow> (event list \<Rightarrow> js_error + 'a) \<Rightarrow> 'a io" where
  "call_value ev result s = (result (trace s), log_event ev s)"

text \<open>\<open>which.sync(cmd, {nothrow: true})\<close> and \<open>which.sync(cmd)\<close>.\<close>

definition which_nothrow :: "world \<Rightarrow> jsstring \<Rightarrow> jsstring option io" where
  "which_nothrow w cmd = call_value (WhichSync cmd) (\<lambda>h. Inr (which_result w h cmd))"

definition which_sync :: "world \<Rightarrow> jsstring \<Rightarrow> jsstring io" where
  "which_sync w cmd =
     call_value (WhichSync cmd)
       (\<lambda>h. case which_result w h cmd of
               None \<Rightarrow> Inl (JsError (js ''Error'') (js ''not found: '' @ cmd))
             | Some p \<Rightarrow> Inr p)"

definition mkdtemp :: "world \<Rightarrow> jsstring \<Rightarrow> jsstring io" where
  "mkdtemp w pfx = call_value (Mkdtemp pfx) (\<lambda>h. mkdtemp_result w h pfx)"

definition openSync :: "world \<Rightarrow> jsstring \<Rightarrow> jsstring \<Rightarrow> nat io" where
  "openSync w p flags = call_value (OpenSync p flags) (\<lambda>h. openSync_result w h p)"

definition readFile :: "world \<Rightarrow> jsstring \<Rightarrow> jsstring io" where
  "readFile w p = call_value (ReadFile p) (\<lambda>h. readFile_result w h p)"

text \<open>\<open>spawn\<close> returns the child's pid, \<open>None\<close> for \<open>undefined\<close>.\<close>

definition spawn :: "world \<Rightarrow> jsstring \<Rightarrow> jsstring list \<Rightarrow> stdio list \<Rightarrow> bool \<Rightarrow> nat option io" where
  "spawn w cmd args io detached s =
     (case spawn_outcome w (trace s) cmd args of
        SpawnThrows e \<Rightarrow> (Inl e, log_event (Spawn cmd args io detached) s)
      | SpawnFailed e \<Rightarrow>
          (Inr None, (log_event (Spawn cmd args io detached) s)\<lparr>unhandled := unhandled s @ [e]\<rparr>)
      | Spawned p \<Rightarrow> (Inr (Some p), log_event (Spawn cmd args io detached) s))"

section \<open>The pre-job step: \<open>setup\<close>\<close>

definition cachix :: jsstring where
  "cachix = js ''cachix''"

text \<open>Lines 30 to 34: install the client unless it is on the search path.\<close>

definition ensure_installed :: "world \<Rightarrow> inputs \<Rightarrow> unit io" where
  "ensure_installed w inp =
     io_bind (which_nothrow w cachix)
       (\<lambda>found.
          io_when (found = None \<or> found = Some [])
            (io_seqs
               [emit (StartGroup (js ''Cachix: installing'')),
                call w (Exec (js ''bash'') [js ''-c'', installCommand inp]),
                emit EndGroup]))"

text \<open>Lines 36 to 38.\<close>

definition check_version :: "world \<Rightarrow> unit io" where
  "check_version w =
     io_seqs
       [emit (StartGroup (js ''Cachix: checking version'')),
        call w (Exec cachix [js ''--version'']),
        emit EndGroup]"

text \<open>Lines 41 to 43.\<close>

definition auth_call :: "jsstring \<Rightarrow> event" where
  "auth_call token = Exec cachix [js ''authtoken'', token]"

definition register_auth :: "world \<Rightarrow> inputs \<Rightarrow> unit io" where
  "register_auth w inp = io_when (authToken inp \<noteq> []) (call w (auth_call (authToken inp)))"

text \<open>Lines 45 to 51.\<close>

definition use_call :: "jsstring \<Rightarrow> event" where
  "use_call cache = Exec cachix [js ''use'', cache]"

definition use_primary :: "world \<Rightarrow> inputs \<Rightarrow> unit io" where
  "use_primary w inp =
     (if skipAddingSubstituter inp = js ''true''
      then emit (Info (js ''Not adding Cachix cache to substituters as skipAddingSubstituter is set to true''))
      else io_seqs
             [emit (StartGroup (js ''Cachix: using cache '' @ name inp)),
              call w (use_call (name inp)),
              emit EndGroup])"

text \<open>Lines 56 to 59: the loop over the pieces of \<open>extraPullNames\<close>.\<close>

fun use_each :: "world \<Rightarrow> jsstring list \<Rightarrow> unit io" where
  "use_each w [] = io_return ()"
| "use_each w (itemName # rest) =
     io_seq (call w (use_call (trim itemName))) (use_each w rest)"

text \<open>Lines 53 to 61.\<close>

definition use_extra :: "world \<Rightarrow> inputs \<Rightarrow> unit io" where
  "use_extra w inp =
     io_when (extraPullNames inp \<noteq> [])
       (io_seqs
          [emit (StartGroup (js ''Cachix: using extra caches '' @ extraPullNames inp)),
           use_each w (split_on comma (extraPullNames inp)),
           emit EndGroup])"

text \<open>Lines 63 to 65.\<close>

definition export_signing_key :: "world \<Rightarrow> inputs \<Rightarrow> unit io" where
  "export_signing_key w inp =
     io_when (signingKey inp \<noteq> [])
       (call w (ExportVariable (js ''CACHIX_SIGNING_KEY'') (signingKey inp)))"

text \<open>
  Lines 92 to 102: the text of the hook script. In a template literal a backslash
  before a line break is a line continuation and leaves nothing in the string, so the
  \<open>exec\<close> command is one line of the script.
\<close>

definition hook_script :: "jsstring \<Rightarrow> jsstring \<Rightarrow> jsstring \<Rightarrow> jsstring" where
  "hook_script cachixBin daemonDir cacheName =
     js [CHR 0x0A] @
     js ''      #!/bin/sh'' @ js [CHR 0x0A] @
     js [CHR 0x0A] @
     js ''      set -eux'' @ js [CHR 0x0A] @
     js ''      set -f #disable globbing'' @ js [CHR 0x0A] @
     js ''      export IFS='' @ js [CHR 0x27, CHR 0x27] @ js [CHR 0x0A] @
     js [CHR 0x0A] @
     js ''      exec '' @ cachixBin @ js '' daemon push '' @
     js ''        --socket '' @ daemonDir @ js ''/daemon.sock '' @
     js ''        '' @ cacheName @ js '' $OUT_PATHS'' @ js [CHR 0x0A] @
     js ''     ''"

definition tmpdir :: "world \<Rightarrow> jsstring" where
  "tmpdir w =
     (case env w (js ''RUNNER_TEMP'') of
        None \<Rightarrow> os_tmpdir w
      | Some t \<Rightarrow> if t = [] then os_tmpdir w else t)"

definition home :: "world \<Rightarrow> jsstring" where
  "home w = or_undefined (env w (js ''HOME''))"

text \<open>Lines 84 to 86: the pid file, when the pid is known.\<close>

definition record_pid :: "world \<Rightarrow> jsstring \<Rightarrow> nat option \<Rightarrow> unit io" where
  "record_pid w daemonDir pid =
     (case pid of
        None \<Rightarrow> io_return ()
      | Some p \<Rightarrow> call w (WriteFile (daemonDir @ js ''/daemon.pid'') (dec p)))"

text \<open>
  Lines 108 to 113. \<open>close\<close> is the callback function of \<open>node:fs\<close>, called without a
  callback.
\<close>

definition register_hook :: "world \<Rightarrow> jsstring \<Rightarrow> unit io" where
  "register_hook w postBuildHookPath =
     io_seq (call w (Mkdir (home w @ js ''/.config/nix'') True))
       (io_bind (openSync w (home w @ js ''/.config/nix/nix.conf'') (js ''a''))
          (\<lambda>nixConf.
             io_seqs
               [call w (WriteSync nixConf
                          (js [CHR 0x0A] @ js ''      post-build-hook = '' @ postBuildHookPath @
                           js [CHR 0x0A] @ js ''      '')),
                floating w (Close nixConf)]))"

text \<open>The file mode \<open>0o755\<close>.\<close>

definition mode_755 :: nat where
  "mode_755 = 7 * 64 + 5 * 8 + 5"

definition hook_path :: "jsstring \<Rightarrow> jsstring" where
  "hook_path daemonDir = daemonDir @ js ''/cachix-post-build-hook.sh''"

definition socket_path :: "jsstring \<Rightarrow> jsstring" where
  "socket_path daemonDir = daemonDir @ js ''/daemon.sock''"

definition spawn_args :: "jsstring \<Rightarrow> jsstring list" where
  "spawn_args daemonDir = [js ''daemon'', js ''run'', js ''--socket'', socket_path daemonDir]"

text \<open>
  Lines 70 to 120, from the daemon directory on. \<open>fs.chmod\<close> is the promise function
  of \<open>node:fs/promises\<close>, called without \<open>await\<close>.
\<close>

definition start_daemon :: "world \<Rightarrow> inputs \<Rightarrow> jsstring \<Rightarrow> unit io" where
  "start_daemon w inp daemonDir =
     io_bind (openSync w (daemonDir @ js ''/daemon.log'') (js ''a''))
       (\<lambda>daemonLog.
          io_bind (spawn w cachix (spawn_args daemonDir) [Ignore, Fd daemonLog, Fd daemonLog] True)
            (\<lambda>pid.
               io_seq (record_pid w daemonDir pid)
                 (io_bind (which_sync w cachix)
                    (\<lambda>cachixBin.
                       io_seqs
                         [emit (Debug (js ''Found cachix executable: '' @ cachixBin)),
                          call w (WriteFile (hook_path daemonDir)
                                    (hook_script cachixBin daemonDir (name inp))),
                          floating w (Chmod (hook_path daemonDir) mode_755),
                          register_hook w (hook_path daemonDir),
                          call w (ExportVariable ENV_CACHIX_DAEMON_DIR daemonDir),
                          emit (Debug (js ''Cachix daemon started with pid '' @
                                       or_undefined (map_option dec pid))),
                          emit Unref]))))"

text \<open>Lines 68 and 69, then the rest of the daemon branch.\<close>

definition setup_daemon :: "world \<Rightarrow> inputs \<Rightarrow> unit io" where
  "setup_daemon w inp =
     io_bind (mkdtemp w (path_join w (tmpdir w) (js ''cachix-daemon-'')))
       (start_daemon w inp)"

text \<open>Line 123.\<close>

definition snapshot_call :: "world \<Rightarrow> event" where
  "snapshot_call w =
     Exec (js ''sh'') [js ''-c'', dirname w @ js ''/list-nix-store.sh > /tmp/store-path-pre-build'']"

definition setup_mode :: "world \<Rightarrow> inputs \<Rightarrow> unit io" where
  "setup_mode w inp =
     (if useDaemon inp = js ''true'' then setup_daemon w inp else call w (snapshot_call w))"

definition failed_message :: "js_error \<Rightarrow> jsstring" where
  "failed_message e = js ''Action failed with error: '' @ error_toString e"

definition setup_steps :: "world \<Rightarrow> inputs \<Rightarrow> unit io list" where
  "setup_steps w inp =
     [ensure_installed w inp,
      check_version w,
      register_auth w inp,
      use_primary w inp,
      use_extra w inp,
      export_signing_key w inp,
      setup_mode w inp]"

text \<open>Lines 28 to 128: the function \<open>setup\<close> of the source.\<close>

definition setup_job :: "world \<Rightarrow> inputs \<Rightarrow> unit io" where
  "setup_job w inp =
     io_catch (io_seqs (setup_steps w inp)) (\<lambda>error. emit (SetFailed (failed_message error)))"

section \<open>The post-job step: \<open>upload\<close>\<close>

text \<open>
  Lines 138 to 161. The listener registered with \<open>on\<close> runs only when the event loop
  turns, after the statements below; the lines it forwards are not in the trace.
\<close>

definition upload_daemon :: "world \<Rightarrow> unit io" where
  "upload_daemon w =
     io_bind (readFile w (or_undefined (env w ENV_CACHIX_DAEMON_DIR) @ js ''/daemon.pid''))
       (\<lambda>content.
     io_seqs
       [emit (Debug (js ''Found Cachix daemon with pid '' @ number_text w (parseInt w content))),
        call w (TailNew (or_undefined (env w ENV_CACHIX_DAEMON_DIR) @ js ''/daemon.log'') True),
        emit (TailOn (js ''line'')),
        io_catch
          (io_seqs
             [emit (Debug (js ''Sending SIGINT to Cachix daemon with pid '' @
                           number_text w (parseInt w content))),
              call w (Kill (parseInt w content) (js ''SIGINT''))])
          (\<lambda>err. io_return ()),
        emit (Debug (js ''Waiting for Cachix daemon to exit...'')),
        call w TailUnwatch])"

text \<open>Line 163.\<close>

definition push_call :: "world \<Rightarrow> inputs \<Rightarrow> event" where
  "push_call w inp =
     Exec (dirname w @ js ''/push-paths.sh'')
       [js ''cachix'', cachixArgs inp, name inp, pathsToPush inp, pushFilter inp]"

definition skip_push_message :: jsstring where
  "skip_push_message = js ''Pushing is disabled as skipPush is set to true''"

definition no_credentials_message :: jsstring where
  "no_credentials_message =
     js ''Pushing is disabled as signingKey nor authToken are set (or are empty?) in your YAML file.''"

definition upload_body :: "world \<Rightarrow> inputs \<Rightarrow> unit io" where
  "upload_body w inp =
     (if skipPush inp = js ''true'' then emit (Info skip_push_message)
      else if signingKey inp \<noteq> [] \<or> authToken inp \<noteq> [] then
        (if useDaemon inp = js ''true'' then upload_daemon w else call w (push_call w inp))
      else emit (Info no_credentials_message))"

definition upload :: "world \<Rightarrow> inputs \<Rightarrow> unit io" where
  "upload w inp =
     io_seqs
       [emit (StartGroup (js ''Cachix: push'')),
        io_catch (upload_body w inp) (\<lambda>error. emit (SetFailed (failed_message error))),
        emit EndGroup]"

text \<open>
  Lines 193 to 205 run \<open>setup\<close> when the state variable \<open>STATE_isPost\<close> is not set and
  \<open>upload\<close> when it is. Each step runs in a process of its own, with nothing issued
  yet.
\<close>

definition initial :: run_state where
  "initial = \<lparr>trace = [], unhandled = []\<rparr>"

definition run :: "unit io \<Rightarrow> run_state" where
  "run m = snd (m initial)"

definition trace_of :: "unit io \<Rightarrow> event list" where
  "trace_of m = trace (run m)"

section \<open>Reading a trace\<close>

text \<open>The cache named by a substituter registration \<open>exec('cachix', ['use', cache])\<close>.\<close>

fun use_name :: "event \<Rightarrow> jsstring option" where
  "use_name (Exec c [a, x]) = (if c = cachix \<and> a = js ''use'' then Some x else None)"
| "use_name _ = None"

text \<open>The caches registered in a trace, in the order of the calls.\<close>

definition use_calls :: "event list \<Rightarrow> jsstring list" where
  "use_calls t = List.map_filter use_name t"

fun is_failure :: "event \<Rightarrow> bool" where
  "is_failure (SetFailed m) = True"
| "is_failure _ = False"

definition job_failed :: "event list \<Rightarrow> bool" where
  "job_failed t = list_ex is_failure t"

definition primary_use :: "inputs \<Rightarrow> jsstring list" where
  "primary_use inp = (if skipAddingSubstituter inp = js ''true'' then [] else [name inp])"

definition extra_uses :: "inputs \<Rightarrow> jsstring list" where
  "extra_uses inp =
     (if extraPullNames inp = [] then [] else map trim (split_on comma (extraPullNames inp)))"

definition expected_uses :: "inputs \<Rightarrow> jsstring list" where
  "expected_uses inp = primary_use inp @ extra_uses inp"

text \<open>The calls that only the daemon lifecycle issues, in either step.\<close>

fun daemon_event :: "event \<Rightarrow> bool" where
  "daemon_event (Mkdtemp p) = True"
| "daemon_event (OpenSync p f) = True"
| "daemon_event (Spawn c a io d) = True"
| "daemon_event (WriteFile p c) = True"
| "daemon_event (Chmod p m) = True"
| "daemon_event (Mkdir p r) = True"
| "daemon_event (WriteSync fd c) = True"
| "daemon_event (Close fd) = True"
| "daemon_event Unref = True"
| "daemon_event (ExportVariable k v) = (k = ENV_CACHIX_DAEMON_DIR)"
| "daemon_event (ReadFile p) = True"
| "daemon_event (TailNew p b) = True"
| "daemon_event (TailOn n) = True"
| "daemon_event (Kill p sig) = True"
| "daemon_event TailUnwatch = True"
| "daemon_event _ = False"

text \<open>
  \<open>core.exportVariable\<close> sets the variable for the later steps of the job: the
  environment a later step starts with.
\<close>

fun exported :: "event list \<Rightarrow> (jsstring \<Rightarrow> jsstring option) \<Rightarrow> (jsstring \<Rightarrow> jsstring option)" where
  "exported [] e = e"
| "exported (ExportVariable k v # t) e = exported t (e(k \<mapsto> v))"
| "exported (_ # t) e = exported t e"

text \<open>The lines of a script, without their indentation.\<close>

definition script_lines :: "jsstring \<Rightarrow> jsstring list" where
  "script_lines s = map (dropWhile (\<lambda>c. c = 0x20)) (split_on 0x0A s)"

section \<open>Reasoning about runs\<close>

text \<open>\<open>emits P m\<close>: whatever the state and the outcome, \<open>m\<close> only appends events that satisfy \<open>P\<close>.\<close>

definition emits :: "(event \<Rightarrow> bool) \<Rightarrow> 'a io \<Rightarrow> bool" where
  "emits P m \<longleftrightarrow> (\<forall>s. \<exists>new. trace (snd (m s)) = trace s @ new \<and> list_all P new)"

text \<open>
  \<open>triple P m Q E\<close>: started on a trace that satisfies \<open>P\<close>, \<open>m\<close> ends with a trace that
  satisfies \<open>Q\<close> when it returns and \<open>E\<close> when it throws.
\<close>

definition triple ::
  "(event list \<Rightarrow> bool) \<Rightarrow> 'a io \<Rightarrow> ('a \<Rightarrow> event list \<Rightarrow> bool) \<Rightarrow>
   (js_error \<Rightarrow> event list \<Rightarrow> bool) \<Rightarrow> bool" where
  "triple P m Q E \<longleftrightarrow>
     (\<forall>s. P (trace s) \<longrightarrow>
        (case m s of (Inl e, s') \<Rightarrow> E e (trace s') | (Inr x, s') \<Rightarrow> Q x (trace s')))"

fun any_event :: "event \<Rightarrow> bool" where
  "any_event ev = True"

fun quiet :: "event \<Rightarrow> bool" where
  "quiet ev = (use_name ev = None \<and> \<not> is_failure ev)"

text \<open>Every registration in the trace succeeded.\<close>

definition all_uses_ok :: "world \<Rightarrow> event list \<Rightarrow> bool" where
  "all_uses_ok w t \<longleftrightarrow>
     (\<forall>i<length t. use_name (t ! i) \<noteq> None \<longrightarrow> fails w (take i t) (t ! i) = None)"

text \<open>
  The states of the registration phase. \<open>good\<close>: the caches \<open>X\<close> are registered and
  nothing has failed. \<open>bad\<close>: the last call failed with \<open>e\<close>. \<open>late\<close>: an error was
  thrown, by the last call or after all registrations.
\<close>

definition good :: "world \<Rightarrow> jsstring list \<Rightarrow> event list \<Rightarrow> bool" where
  "good w X t \<longleftrightarrow> use_calls t = X \<and> \<not> job_failed t \<and> all_uses_ok w t"

definition bad :: "world \<Rightarrow> inputs \<Rightarrow> js_error \<Rightarrow> event list \<Rightarrow> bool" where
  "bad w inp e t \<longleftrightarrow>
     (\<exists>t0 ev. t = t0 @ [ev] \<and> fails w t0 ev = Some e \<and> \<not> job_failed t \<and> all_uses_ok w t0 \<and>
        prefix (use_calls t) (expected_uses inp))"

definition late :: "world \<Rightarrow> inputs \<Rightarrow> js_error \<Rightarrow> event list \<Rightarrow> bool" where
  "late w inp e t \<longleftrightarrow> bad w inp e t \<or> good w (expected_uses inp) t"

definition outcome :: "world \<Rightarrow> inputs \<Rightarrow> event list \<Rightarrow> bool" where
  "outcome w inp t \<longleftrightarrow>
     good w (expected_uses inp) t \<or>
     (\<exists>e t0. t = t0 @ [SetFailed (failed_message e)] \<and> late w inp e t0)"

text \<open>The states of the trace with respect to authentication.\<close>

definition no_use_yet :: "event list \<Rightarrow> bool" where
  "no_use_yet t = list_all (\<lambda>e. use_name e = None) t"

definition auth_seen :: "jsstring \<Rightarrow> event list \<Rightarrow> bool" where
  "auth_seen tok t \<longleftrightarrow> (\<exists>a b. t = a @ auth_call tok # b \<and> no_use_yet a)"

definition auth_first :: "jsstring \<Rightarrow> event list \<Rightarrow> bool" where
  "auth_first tok t \<longleftrightarrow> no_use_yet t \<or> auth_seen tok t"

text \<open>An event is consistent with the mode that \<open>useDaemon\<close> selects.\<close>

definition mode_event :: "world \<Rightarrow> world \<Rightarrow> inputs \<Rightarrow> event \<Rightarrow> bool" where
  "mode_event w w' inp e \<longleftrightarrow>
     (daemon_event e \<longrightarrow> useDaemon inp = js ''true'') \<and>
     (e = snapshot_call w \<or> e = push_call w' inp \<longrightarrow> useDaemon inp \<noteq> js ''true'')"

text \<open>What the events of the daemon branch say about the daemon directory \<open>d\<close>.\<close>

fun about_dir :: "inputs \<Rightarrow> jsstring \<Rightarrow> event \<Rightarrow> bool" where
  "about_dir inp d (Spawn c a io det) = (c = cachix \<and> a = spawn_args d)"
| "about_dir inp d (WriteFile p c) =
     (p = d @ js ''/daemon.pid'' \<or>
      (p = hook_path d \<and> (\<exists>bin. c = hook_script bin d (name inp))))"
| "about_dir inp d (ExportVariable k v) = (k = ENV_CACHIX_DAEMON_DIR \<longrightarrow> v = d)"
| "about_dir inp d _ = True"

definition no_dir_yet :: "inputs \<Rightarrow> event list \<Rightarrow> bool" where
  "no_dir_yet inp t \<longleftrightarrow> (\<forall>d. list_all (about_dir inp d) t)"

definition one_dir :: "inputs \<Rightarrow> event list \<Rightarrow> bool" where
  "one_dir inp t \<longleftrightarrow> (\<exists>d. list_all (about_dir inp d) t)"

text \<open>What \<open>upload\<close> reads, relative to a directory.\<close>

fun reads_from :: "jsstring \<Rightarrow> event \<Rightarrow> bool" where
  "reads_from d (ReadFile p) = (p = d @ js ''/daemon.pid'')"
| "reads_from d (TailNew p b) = (p = d @ js ''/daemon.log'')"
| "reads_from d _ = True"

text \<open>The trace shows which branch of lines 67 to 124 \<open>setup\<close> has entered.\<close>

definition mode_started :: "world \<Rightarrow> inputs \<Rightarrow> event list \<Rightarrow> bool" where
  "mode_started w inp t \<longleftrightarrow>
     (if useDaemon inp = js ''true''
      then \<exists>d log. Spawn cachix (spawn_args d) [Ignore, Fd log, Fd log] True \<in> set t
      else snapshot_call w \<in> set t)"

section \<open>Sample runs\<close>

text \<open>A runner on which every call succeeds.\<close>

definition world0 :: world where
  "world0 =
     \<lparr>fails = (\<lambda>h ev. None),
      which_result = (\<lambda>h c. Some (js ''/usr/bin/cachix'')),
      mkdtemp_result = (\<lambda>h p. Inr (p @ js ''AbCdEf'')),
      openSync_result = (\<lambda>h p. Inr 3),
      spawn_outcome = (\<lambda>h c a. Spawned 4242),
      readFile_result = (\<lambda>h p. Inr (js ''4242'')),
      env = (\<lambda>k. if k = js ''HOME'' then Some (js ''/home/runner'')
                  else if k = js ''RUNNER_TEMP'' then Some (js ''/tmp'') else None),
      os_tmpdir = js ''/tmp'',
      path_join = (\<lambda>a b. a @ js ''/'' @ b),
      parseInt = (\<lambda>s. Num 4242),
      number_text = (\<lambda>n. js ''4242''),
      dirname = js ''/action/dist''\<rparr>"

text \<open>The same runner, on which the client refuses to register a cache without a name.\<close>

definition use_error :: js_error where
  "use_error = JsError (js ''Error'') (js ''The process cachix failed with exit code 1'')"

definition world_strict :: world where
  "world_strict = world0\<lparr>fails := (\<lambda>h ev. if ev = use_call [] then Some use_error else None)\<rparr>"

text \<open>The same runner, on which the hook script cannot be made executable.\<close>

definition chmod_error :: js_error where
  "chmod_error = JsError (js ''Error'') (js ''EPERM: operation not permitted, chmod'')"

definition world_chmod :: world where
  "world_chmod =
     world0\<lparr>fails := (\<lambda>h ev. case ev of Chmod p m \<Rightarrow> Some chmod_error | _ \<Rightarrow> None)\<rparr>"

definition inputs0 :: inputs where
  "inputs0 =
     \<lparr>name = js ''my-cache'', extraPullNames = js ''a, b,,c'', signingKey = js ''key'',
      authToken = js ''tok'', skipPush = [], pathsToPush = [], pushFilter = [], cachixArgs = [],
      installCommandInput = [], skipAddingSubstituter = [], useDaemon = js ''true''\<rparr>"

definition inputs_skip :: inputs where
  "inputs_skip = inputs0\<lparr>skipPush := js ''true''\<rparr>"

definition inputs_bare :: inputs where
  "inputs_bare = inputs0\<lparr>signingKey := [], authToken := []\<rparr>"

definition inputs_direct :: inputs where
  "inputs_direct = inputs0\<lparr>useDaemon := js ''True''\<rparr>"

text \<open>The runner when \<open>upload\<close> starts, after the sample run of \<open>setup\<close>.\<close>

definition world_post :: world where
  "world_post = world0\<lparr>env := exported (trace_of (setup_job world0 inputs0)) (env world0)\<rparr>"

section \<open>Rules for \<open>emits\<close> and \<open>triple\<close>\<close>

lemma emitsI:
  assumes "\<And>s. \<exists>new. trace (snd (m s)) = trace s @ new \<and> list_all P new"
  shows "emits P m"
  using assms by (simp add: emits_def)

lemma emitsD:
  assumes "emits P m"
  obtains new where "trace (snd (m s)) = trace s @ new" and "list_all P new"
  using assms unfolding emits_def by blast

lemma emits_return: "emits P (io_return x)"
  by (simp add: emits_def io_return_def)

lemma emits_emit: "P ev \<Longrightarrow> emits P (emit ev)"
  by (simp add: emits_def emit_def log_event_def)

lemma emits_call: "P ev \<Longrightarrow> emits P (call w ev)"
  by (simp add: emits_def call_def log_event_def split: option.split)

lemma emits_floating: "P ev \<Longrightarrow> emits P (floating w ev)"
  by (simp add: emits_def floating_def log_event_def split: option.split)

lemma emits_call_value: "P ev \<Longrightarrow> emits P (call_value ev r)"
  by (simp add: emits_def call_value_def log_event_def)

lemma emits_spawn: "P (Spawn c a io d) \<Longrightarrow> emits P (spawn w c a io d)"
  by (simp add: emits_def spawn_def log_event_def split: spawn_result.split)

lemma emits_bind:
  assumes "emits P m" and "\<And>x. emits P (f x)"
  shows "emits P (io_bind m f)"
proof (rule emitsI)
  fix s
  obtain r s1 where ms: "m s = (r, s1)" by (cases "m s")
  from assms(1) obtain n1 where n1: "trace (snd (m s)) = trace s @ n1" "list_all P n1"
    by (rule emitsD)
  show "\<exists>new. trace (snd (io_bind m f s)) = trace s @ new \<and> list_all P new"
  proof (cases r)
    case (Inl e)
    with ms n1 show ?thesis by (auto simp: io_bind_def)
  next
    case (Inr x)
    from assms(2) [of x] obtain n2 where n2: "trace (snd (f x s1)) = trace s1 @ n2" "list_all P n2"
      by (rule emitsD)
    with Inr ms n1 have "trace (snd (io_bind m f s)) = trace s @ (n1 @ n2) \<and> list_all P (n1 @ n2)"
      by (simp add: io_bind_def)
    then show ?thesis by blast
  qed
qed

lemma emits_seq: "emits P m \<Longrightarrow> emits P n \<Longrightarrow> emits P (io_seq m n)"
  by (simp add: io_seq_def emits_bind)

lemma emits_catch:
  assumes "emits P m" and "\<And>e. emits P (h e)"
  shows "emits P (io_catch m h)"
proof (rule emitsI)
  fix s
  obtain r s1 where ms: "m s = (r, s1)" by (cases "m s")
  from assms(1) obtain n1 where n1: "trace (snd (m s)) = trace s @ n1" "list_all P n1"
    by (rule emitsD)
  show "\<exists>new. trace (snd (io_catch m h s)) = trace s @ new \<and> list_all P new"
  proof (cases r)
    case (Inr x)
    with ms n1 show ?thesis by (auto simp: io_catch_def)
  next
    case (Inl e)
    from assms(2) [of e] obtain n2 where n2: "trace (snd (h e s1)) = trace s1 @ n2" "list_all P n2"
      by (rule emitsD)
    with Inl ms n1 have "trace (snd (io_catch m h s)) = trace s @ (n1 @ n2) \<and> list_all P (n1 @ n2)"
      by (simp add: io_catch_def)
    then show ?thesis by blast
  qed
qed

lemma emits_seqs_Nil: "emits P (io_seqs [])"
  by (simp add: emits_return)

lemma emits_seqs_Cons: "emits P m \<Longrightarrow> emits P (io_seqs ms) \<Longrightarrow> emits P (io_seqs (m # ms))"
  by (simp add: emits_seq)

lemma emits_when: "(b \<Longrightarrow> emits P m) \<Longrightarrow> emits P (io_when b m)"
  by (simp add: io_when_def emits_return)

lemma emits_if: "(b \<Longrightarrow> emits P m) \<Longrightarrow> (\<not> b \<Longrightarrow> emits P n) \<Longrightarrow> emits P (if b then m else n)"
  by simp

lemma emits_option: "emits P m \<Longrightarrow> (\<And>x. emits P (f x)) \<Longrightarrow> emits P (case v of None \<Rightarrow> m | Some x \<Rightarrow> f x)"
  by (cases v) simp_all

lemma emits_use_each: "(\<And>x. P (use_call x)) \<Longrightarrow> emits P (use_each w xs)"
  by (induction xs) (simp_all add: emits_return emits_seq emits_call)

lemmas emits_rules =
  emits_return emits_emit emits_call emits_floating emits_call_value emits_spawn
  emits_bind emits_seq emits_catch emits_seqs_Nil emits_seqs_Cons emits_when emits_if
  emits_option emits_use_each

lemma emits_weaken: "emits P m \<Longrightarrow> (\<And>e. P e \<Longrightarrow> Q e) \<Longrightarrow> emits Q m"
  unfolding emits_def list_all_iff by blast

lemma emits_trace_of: "emits P m \<Longrightarrow> list_all P (trace_of m)"
  unfolding emits_def trace_of_def run_def initial_def
  by (metis append_Nil select_convs(1))

lemma triple_return: "(\<And>t. P t \<Longrightarrow> Q x t) \<Longrightarrow> triple P (io_return x) Q E"
  by (simp add: triple_def io_return_def)

lemma triple_emit: "(\<And>t. P t \<Longrightarrow> Q () (t @ [ev])) \<Longrightarrow> triple P (emit ev) Q E"
  by (simp add: triple_def emit_def log_event_def)

lemma triple_call:
  assumes "\<And>t. P t \<Longrightarrow> fails w t ev = None \<Longrightarrow> Q () (t @ [ev])"
    and "\<And>t e. P t \<Longrightarrow> fails w t ev = Some e \<Longrightarrow> E e (t @ [ev])"
  shows "triple P (call w ev) Q E"
  using assms by (simp add: triple_def call_def log_event_def split: option.split)

lemma triple_call_value:
  assumes "\<And>t x. P t \<Longrightarrow> r t = Inr x \<Longrightarrow> Q x (t @ [ev])"
    and "\<And>t e. P t \<Longrightarrow> r t = Inl e \<Longrightarrow> E e (t @ [ev])"
  shows "triple P (call_value ev r) Q E"
  using assms by (simp add: triple_def call_value_def log_event_def split: sum.split)

lemma triple_bind:
  assumes "triple P m R E" and "\<And>x. triple (R x) (f x) Q E"
  shows "triple P (io_bind m f) Q E"
  using assms unfolding triple_def io_bind_def
  by (fastforce split: prod.splits sum.splits)

lemma triple_seq: "triple P m (\<lambda>_. R) E \<Longrightarrow> triple R n Q E \<Longrightarrow> triple P (io_seq m n) Q E"
  unfolding io_seq_def by (rule triple_bind)

lemma triple_catch:
  assumes "triple P m Q R" and "\<And>e. triple (R e) (h e) Q E"
  shows "triple P (io_catch m h) Q E"
  using assms unfolding triple_def io_catch_def
  by (fastforce split: prod.splits sum.splits)

lemma triple_weaken:
  assumes "triple P' m Q' E'"
    and "\<And>t. P t \<Longrightarrow> P' t" and "\<And>x t. Q' x t \<Longrightarrow> Q x t" and "\<And>e t. E' e t \<Longrightarrow> E e t"
  shows "triple P m Q E"
  using assms unfolding triple_def
  by (fastforce split: prod.splits sum.splits)

lemma triple_emits:
  assumes "emits A m" and "\<And>t n. P t \<Longrightarrow> list_all A n \<Longrightarrow> Q (t @ n)"
  shows "triple P m (\<lambda>_. Q) (\<lambda>_. Q)"
  unfolding triple_def
proof (intro allI impI)
  fix s :: run_state
  assume P: "P (trace s)"
  from assms(1) obtain n where n: "trace (snd (m s)) = trace s @ n" "list_all A n"
    by (rule emitsD)
  with assms(2) [OF P] have "Q (trace (snd (m s)))" by simp
  then show "case m s of (Inl e, s') \<Rightarrow> Q (trace s') | (Inr x, s') \<Rightarrow> Q (trace s')"
    by (cases "m s") (simp split: sum.splits)
qed

lemma triple_trace_of:
  assumes "triple P m (\<lambda>_. Q) (\<lambda>_. Q)" and "P []"
  shows "Q (trace_of m)"
proof -
  from assms have "case m initial of (Inl e, s') \<Rightarrow> Q (trace s') | (Inr x, s') \<Rightarrow> Q (trace s')"
    unfolding triple_def by (simp add: initial_def)
  then show ?thesis
    by (simp add: trace_of_def run_def split: prod.splits sum.splits)
qed

lemma triple_inv_seqs_Nil: "triple P (io_seqs []) (\<lambda>_. P) E"
  by (simp add: triple_return)

lemma triple_inv_seqs_Cons:
  "triple P m (\<lambda>_. P) E \<Longrightarrow> triple P (io_seqs ms) (\<lambda>_. P) E \<Longrightarrow> triple P (io_seqs (m # ms)) (\<lambda>_. P) E"
  by (simp add: triple_seq)

lemma triple_inv_when: "(b \<Longrightarrow> triple P m (\<lambda>_. P) E) \<Longrightarrow> triple P (io_when b m) (\<lambda>_. P) E"
  by (simp add: io_when_def triple_return)

section \<open>Registrations in a trace\<close>

lemma use_calls_Nil: "use_calls [] = []"
  by (simp add: use_calls_def)

lemma use_calls_append: "use_calls (a @ b) = use_calls a @ use_calls b"
  by (simp add: use_calls_def map_filter_def)

lemma use_calls_single:
  "use_calls [ev] = (case use_name ev of None \<Rightarrow> [] | Some x \<Rightarrow> [x])"
  by (simp add: use_calls_def split: option.split)

lemma use_calls_none: "list_all (\<lambda>e. use_name e = None) n \<Longrightarrow> use_calls n = []"
  by (induction n) (simp_all add: use_calls_def)

lemma use_name_use_call: "use_name (use_call x) = Some x"
  by (simp add: use_call_def)



lemma job_failed_append: "job_failed (a @ b) \<longleftrightarrow> job_failed a \<or> job_failed b"
  by (simp add: job_failed_def list_ex_iff) blast

lemma job_failed_single: "job_failed [ev] = is_failure ev"
  by (simp add: job_failed_def)

lemma job_failed_none: "list_all (\<lambda>e. \<not> is_failure e) n \<Longrightarrow> \<not> job_failed n"
  by (simp add: job_failed_def list_all_iff list_ex_iff)

lemma all_uses_ok_Nil: "all_uses_ok w []"
  by (simp add: all_uses_ok_def)

lemma all_uses_ok_snoc:
  "all_uses_ok w (t @ [ev]) \<longleftrightarrow> all_uses_ok w t \<and> (use_name ev \<noteq> None \<longrightarrow> fails w t ev = None)"
  unfolding all_uses_ok_def
  by (auto simp: less_Suc_eq nth_append)

lemma all_uses_ok_append:
  "all_uses_ok w t \<Longrightarrow> list_all (\<lambda>e. use_name e = None) n \<Longrightarrow> all_uses_ok w (t @ n)"
proof (induction n rule: rev_induct)
  case Nil
  then show ?case by simp
next
  case (snoc x xs)
  then have "all_uses_ok w ((t @ xs) @ [x])"
    unfolding all_uses_ok_snoc by simp
  then show ?case by simp
qed

lemma good_Nil: "good w [] []"
  by (simp add: good_def use_calls_Nil job_failed_def all_uses_ok_Nil)

lemma good_plain:
  "good w X t \<Longrightarrow> use_name ev = None \<Longrightarrow> \<not> is_failure ev \<Longrightarrow> good w X (t @ [ev])"
  by (simp add: good_def use_calls_append use_calls_single job_failed_append job_failed_single
      all_uses_ok_snoc)

lemma good_use:
  "good w X t \<Longrightarrow> fails w t (use_call x) = None \<Longrightarrow> good w (X @ [x]) (t @ [use_call x])"
  by (simp add: good_def use_calls_append use_calls_single job_failed_append job_failed_single
      all_uses_ok_snoc use_name_use_call) (simp add: use_call_def)

lemma good_append:
  "good w X t \<Longrightarrow> list_all quiet n \<Longrightarrow> good w X (t @ n)"
  unfolding good_def
  by (simp add: use_calls_append use_calls_none job_failed_append job_failed_none
      all_uses_ok_append list_all_iff)

lemma bad_plain:
  "good w X t \<Longrightarrow> fails w t ev = Some e \<Longrightarrow> use_name ev = None \<Longrightarrow> \<not> is_failure ev \<Longrightarrow>
   prefix X (expected_uses inp) \<Longrightarrow> bad w inp e (t @ [ev])"
  unfolding bad_def good_def
  by (auto simp: use_calls_append use_calls_single job_failed_append job_failed_single)

lemma bad_use:
  "good w X t \<Longrightarrow> fails w t (use_call x) = Some e \<Longrightarrow>
   prefix (X @ [x]) (expected_uses inp) \<Longrightarrow> bad w inp e (t @ [use_call x])"
  unfolding bad_def good_def
  by (auto simp: use_calls_append use_calls_single job_failed_append job_failed_single
      use_name_use_call) (simp add: use_call_def)

lemma step_emit:
  "use_name ev = None \<Longrightarrow> \<not> is_failure ev \<Longrightarrow> triple (good w X) (emit ev) (\<lambda>_. good w X) E"
  by (rule triple_emit) (rule good_plain)

lemma step_call:
  "use_name ev = None \<Longrightarrow> \<not> is_failure ev \<Longrightarrow> prefix X (expected_uses inp) \<Longrightarrow>
   triple (good w X) (call w ev) (\<lambda>_. good w X) (bad w inp)"
  by (rule triple_call) (auto intro: good_plain bad_plain)

lemma step_use:
  "prefix (X @ [x]) (expected_uses inp) \<Longrightarrow>
   triple (good w X) (call w (use_call x)) (\<lambda>_. good w (X @ [x])) (bad w inp)"
  by (rule triple_call) (auto intro: good_use bad_use)

lemma step_use_each:
  "prefix (X @ map trim xs) (expected_uses inp) \<Longrightarrow>
   triple (good w X) (use_each w xs) (\<lambda>_. good w (X @ map trim xs)) (bad w inp)"
proof (induction xs arbitrary: X)
  case Nil
  then show ?case by (simp add: triple_return)
next
  case (Cons x xs)
  from Cons.prems have p: "prefix ((X @ [trim x]) @ map trim xs) (expected_uses inp)" by simp
  then have "prefix (X @ [trim x]) (expected_uses inp)"
    by (rule append_prefixD)
  then have "triple (good w X) (call w (use_call (trim x))) (\<lambda>_. good w (X @ [trim x])) (bad w inp)"
    by (rule step_use)
  moreover from Cons.IH [OF p]
  have "triple (good w (X @ [trim x])) (use_each w xs) (\<lambda>_. good w (X @ map trim (x # xs))) (bad w inp)"
    by simp
  ultimately show ?case by (simp add: triple_seq)
qed


section \<open>The registration phase of \<open>setup\<close>\<close>

lemma use_name_simps:
  "use_name (auth_call tok) = None"
  "use_name (snapshot_call w) = None"
  "use_name (Exec (js ''bash'') [a, b]) = None"
  "use_name (Exec cachix [js ''--version'']) = None"
  by (simp_all add: auth_call_def snapshot_call_def cachix_def js_def)

lemma is_failure_simps:
  "\<not> is_failure (auth_call tok)"
  "\<not> is_failure (snapshot_call w)"
  "\<not> is_failure (use_call x)"
  by (simp_all add: auth_call_def snapshot_call_def use_call_def)

lemma phase_ensure_installed:
  "triple (good w []) (ensure_installed w inp) (\<lambda>_. good w []) (bad w inp)"
  unfolding ensure_installed_def which_nothrow_def
proof (rule triple_bind [where R = "\<lambda>_. good w []"])
  show "triple (good w []) (call_value (WhichSync cachix) (\<lambda>h. Inr (which_result w h cachix)))
          (\<lambda>_. good w []) (bad w inp)"
    by (rule triple_call_value) (simp_all add: good_plain)
next
  fix found
  show "triple (good w [])
          (io_when (found = None \<or> found = Some [])
             (io_seqs
                [emit (StartGroup (js ''Cachix: installing'')),
                 call w (Exec (js ''bash'') [js ''-c'', installCommand inp]),
                 emit EndGroup]))
          (\<lambda>_. good w []) (bad w inp)"
    by (intro triple_inv_when triple_inv_seqs_Cons triple_inv_seqs_Nil step_emit step_call)
      (simp_all add: cachix_def js_def)
qed

lemma phase_check_version:
  "triple (good w []) (check_version w) (\<lambda>_. good w []) (bad w inp)"
  unfolding check_version_def
  apply (intro triple_inv_when triple_inv_seqs_Cons triple_inv_seqs_Nil step_emit step_call)
         apply (simp_all add: use_name_simps is_failure_simps)
  done

lemma phase_register_auth:
  "triple (good w []) (register_auth w inp) (\<lambda>_. good w []) (bad w inp)"
  unfolding register_auth_def
  apply (intro triple_inv_when triple_inv_seqs_Cons triple_inv_seqs_Nil step_emit step_call)
         apply (simp_all add: use_name_simps is_failure_simps)
  done

lemma phase_use_primary:
  "triple (good w []) (use_primary w inp) (\<lambda>_. good w (primary_use inp)) (bad w inp)"
proof (cases "skipAddingSubstituter inp = js ''true''")
  case True
  then show ?thesis
    by (simp add: use_primary_def primary_use_def step_emit)
next
  case False
  have 1: "triple (good w []) (emit (StartGroup (js ''Cachix: using cache '' @ name inp)))
             (\<lambda>_. good w []) (bad w inp)"
    by (rule step_emit) simp_all
  have "prefix ([] @ [name inp]) (expected_uses inp)"
    using False by (simp add: expected_uses_def primary_use_def)
  then have "triple (good w []) (call w (use_call (name inp))) (\<lambda>_. good w ([] @ [name inp])) (bad w inp)"
    by (rule step_use)
  then have 2: "triple (good w []) (call w (use_call (name inp))) (\<lambda>_. good w [name inp]) (bad w inp)"
    by simp
  have 3: "triple (good w [name inp]) (io_seqs [emit EndGroup]) (\<lambda>_. good w [name inp]) (bad w inp)"
    by (intro triple_inv_seqs_Cons triple_inv_seqs_Nil step_emit) simp_all
  from 1 2 3 show ?thesis
    using False by (simp add: use_primary_def primary_use_def triple_seq)
qed

lemma phase_use_extra:
  "triple (good w (primary_use inp)) (use_extra w inp) (\<lambda>_. good w (expected_uses inp)) (bad w inp)"
proof (cases "extraPullNames inp = []")
  case True
  then show ?thesis
    by (simp add: use_extra_def io_when_def expected_uses_def extra_uses_def triple_return)
next
  case False
  let ?P = "primary_use inp"
  have ex: "expected_uses inp = ?P @ map trim (split_on comma (extraPullNames inp))"
    using False by (simp add: expected_uses_def extra_uses_def)
  have 1: "triple (good w ?P) (emit (StartGroup (js ''Cachix: using extra caches '' @ extraPullNames inp)))
             (\<lambda>_. good w ?P) (bad w inp)"
    by (rule step_emit) simp_all
  have 2: "triple (good w ?P) (use_each w (split_on comma (extraPullNames inp)))
             (\<lambda>_. good w (expected_uses inp)) (bad w inp)"
    unfolding ex by (rule step_use_each) (simp add: ex)
  have 3: "triple (good w (expected_uses inp)) (io_seqs [emit EndGroup])
             (\<lambda>_. good w (expected_uses inp)) (bad w inp)"
    by (intro triple_inv_seqs_Cons triple_inv_seqs_Nil step_emit) simp_all
  from 1 2 3 show ?thesis
    using False by (simp add: use_extra_def io_when_def triple_seq)
qed

lemma emits_export_signing_key: "emits quiet (export_signing_key w inp)"
  unfolding export_signing_key_def
  by (intro emits_rules) simp_all

lemma emits_setup_mode: "emits quiet (setup_mode w inp)"
  unfolding setup_mode_def setup_daemon_def start_daemon_def register_hook_def record_pid_def
    mkdtemp_def openSync_def which_sync_def
  by (intro emits_rules) (simp_all add: use_name_simps is_failure_simps)

lemma phase_tail:
  "triple (good w X) (io_seqs [export_signing_key w inp, setup_mode w inp])
     (\<lambda>_. good w X) (\<lambda>_. good w X)"
proof (rule triple_emits)
  show "emits quiet (io_seqs [export_signing_key w inp, setup_mode w inp])"
    by (intro emits_rules emits_export_signing_key emits_setup_mode)
  show "\<And>t n. good w X t \<Longrightarrow> list_all quiet n \<Longrightarrow> good w X (t @ n)"
    by (rule good_append)
qed

lemma body_triple:
  "triple (good w []) (io_seqs (setup_steps w inp))
     (\<lambda>_. good w (expected_uses inp)) (late w inp)"
proof -
  have w: "triple P m Q (late w inp)" if "triple P m Q (bad w inp)" for P Q and m :: "unit io"
    using that by (rule triple_weaken) (simp_all add: late_def)
  have t: "triple (good w (expected_uses inp)) (io_seqs [export_signing_key w inp, setup_mode w inp])
     (\<lambda>_. good w (expected_uses inp)) (late w inp)"
    by (rule triple_weaken [OF phase_tail [of w "expected_uses inp" inp]]) (simp_all add: late_def)
  show ?thesis
    unfolding setup_steps_def
    apply (subst io_seqs.simps, rule triple_seq [OF w [OF phase_ensure_installed]])
    apply (subst io_seqs.simps, rule triple_seq [OF w [OF phase_check_version]])
    apply (subst io_seqs.simps, rule triple_seq [OF w [OF phase_register_auth]])
    apply (subst io_seqs.simps, rule triple_seq [OF w [OF phase_use_primary]])
    apply (subst io_seqs.simps, rule triple_seq [OF w [OF phase_use_extra]])
    apply (rule t)
    done
qed

lemma setup_job_outcome: "outcome w inp (trace_of (setup_job w inp))"
proof (rule triple_trace_of [where P = "good w []"])
  show "good w [] []" by (rule good_Nil)
  have "triple (good w []) (io_seqs (setup_steps w inp)) (\<lambda>_. outcome w inp) (late w inp)"
    by (rule triple_weaken [OF body_triple]) (simp_all add: outcome_def)
  moreover have "triple (late w inp e) (emit (SetFailed (failed_message e)))
      (\<lambda>_. outcome w inp) (\<lambda>_. outcome w inp)" for e
    by (rule triple_emit) (auto simp: outcome_def)
  ultimately show "triple (good w []) (setup_job w inp) (\<lambda>_. outcome w inp) (\<lambda>_. outcome w inp)"
    unfolding setup_job_def by (rule triple_catch)
qed

lemma use_calls_SetFailed: "use_calls (t @ [SetFailed m]) = use_calls t"
  by (simp add: use_calls_append use_calls_single)

lemma outcome_prefix:
  assumes "outcome w inp t"
  shows "prefix (use_calls t) (expected_uses inp)"
proof -
  from assms consider "good w (expected_uses inp) t"
    | e t0 where "t = t0 @ [SetFailed (failed_message e)]" "good w (expected_uses inp) t0"
    | e t0 where "t = t0 @ [SetFailed (failed_message e)]" "bad w inp e t0"
    unfolding outcome_def late_def by blast
  then show ?thesis
  proof cases
    case 1
    then show ?thesis by (simp add: good_def)
  next
    case 2
    then show ?thesis by (simp add: good_def use_calls_SetFailed)
  next
    case 3
    then show ?thesis by (auto simp: bad_def use_calls_SetFailed)
  qed
qed

lemma outcome_complete:
  assumes "outcome w inp t" and "\<not> job_failed t"
  shows "use_calls t = expected_uses inp"
  using assms unfolding outcome_def good_def
  by (auto simp: job_failed_append job_failed_single)

lemma outcome_complete_or_stopped:
  assumes "outcome w inp t"
  shows "use_calls t = expected_uses inp \<or>
    (\<exists>t0 ev e. t = t0 @ [ev, SetFailed (failed_message e)] \<and> fails w t0 ev = Some e)"
proof -
  from assms consider "good w (expected_uses inp) t"
    | e t0 where "t = t0 @ [SetFailed (failed_message e)]" "good w (expected_uses inp) t0"
    | e t0 where "t = t0 @ [SetFailed (failed_message e)]" "bad w inp e t0"
    unfolding outcome_def late_def by blast
  then show ?thesis
  proof cases
    case 1
    then show ?thesis by (simp add: good_def)
  next
    case 2
    then show ?thesis by (simp add: good_def use_calls_SetFailed)
  next
    case 3
    then obtain t1 ev where "t0 = t1 @ [ev]" "fails w t1 ev = Some e"
      unfolding bad_def by blast
    with 3 have "t = t1 @ [ev, SetFailed (failed_message e)] \<and> fails w t1 ev = Some e"
      by simp
    then show ?thesis by blast
  qed
qed

lemma outcome_abort:
  assumes o: "outcome w inp t" and i: "i < length t" and u: "use_name (t ! i) \<noteq> None"
    and f: "fails w (take i t) (t ! i) = Some e"
  shows "drop (Suc i) t = [SetFailed (failed_message e)]"
proof -
  have ok: False if "all_uses_ok w t0" "i < length t0" "t = t0 @ r" for t0 r
  proof -
    from that have "t ! i = t0 ! i" "take i t = take i t0" by (simp_all add: nth_append)
    with that(1,2) u f show False by (simp add: all_uses_ok_def)
  qed
  from o consider "good w (expected_uses inp) t"
    | e' t0 where "t = t0 @ [SetFailed (failed_message e')]" "good w (expected_uses inp) t0"
    | e' t0 where "t = t0 @ [SetFailed (failed_message e')]" "bad w inp e' t0"
    unfolding outcome_def late_def by blast
  then show ?thesis
  proof cases
    case 1
    with ok [of t "[]"] i show ?thesis by (simp add: good_def)
  next
    case 2
    show ?thesis
    proof (cases "i < length t0")
      case True
      with ok [of t0] 2 show ?thesis by (simp add: good_def)
    next
      case False
      with i 2 have "i = length t0" by simp
      with 2 u show ?thesis by simp
    qed
  next
    case 3
    then obtain t1 ev where b: "t0 = t1 @ [ev]" "fails w t1 ev = Some e'" "all_uses_ok w t1"
      unfolding bad_def by blast
    with 3 have t: "t = t1 @ [ev, SetFailed (failed_message e')]" by simp
    consider "i < length t1" | "i = length t1" | "i = Suc (length t1)"
      using i t by force
    then show ?thesis
    proof cases
      case 1
      with ok [of t1] b t show ?thesis by simp
    next
      case 2
      with t have "t ! i = ev" "take i t = t1" by simp_all
      with f b have "e = e'" by simp
      with t 2 show ?thesis by simp
    next
      case 3
      with t have "t ! i = SetFailed (failed_message e')" by (simp add: nth_append)
      with u show ?thesis by simp
    qed
  qed
qed

section \<open>Authentication before registration\<close>

lemma emits_any_rest:
  "emits any_event (io_seqs [use_primary w inp, use_extra w inp, export_signing_key w inp, setup_mode w inp])"
  unfolding use_primary_def use_extra_def export_signing_key_def
    setup_mode_def setup_daemon_def start_daemon_def register_hook_def record_pid_def
    mkdtemp_def openSync_def which_sync_def
  by (intro emits_rules) simp_all

lemma emits_no_use_prelude:
  "emits (\<lambda>e. use_name e = None) (ensure_installed w inp)"
  "emits (\<lambda>e. use_name e = None) (check_version w)"
  unfolding ensure_installed_def which_nothrow_def check_version_def
  by (intro emits_rules; simp add: cachix_def js_def)+

lemma auth_seen_append: "auth_seen tok t \<Longrightarrow> auth_seen tok (t @ n)"
  unfolding auth_seen_def by (metis append_Cons append_assoc)

lemma auth_first_index:
  assumes "auth_first tok t" and "j < length t" and "use_name (t ! j) \<noteq> None"
  shows "\<exists>i<j. t ! i = auth_call tok"
proof -
  from assms(2,3) have "\<not> no_use_yet t"
    by (auto simp: no_use_yet_def list_all_length)
  with assms(1) obtain a b where t: "t = a @ auth_call tok # b" and a: "no_use_yet a"
    unfolding auth_first_def auth_seen_def by blast
  have "\<not> j < length a"
  proof
    assume "j < length a"
    with t a assms(3) show False by (simp add: nth_append no_use_yet_def list_all_length)
  qed
  moreover have "j \<noteq> length a"
    using t assms(3) by (auto simp: use_name_simps)
  ultimately have "length a < j" by simp
  moreover have "t ! length a = auth_call tok" using t by simp
  ultimately show ?thesis by blast
qed

lemma setup_job_auth_first:
  assumes "authToken inp \<noteq> []"
  shows "auth_first (authToken inp) (trace_of (setup_job w inp))"
proof (rule triple_trace_of [where P = no_use_yet])
  let ?tok = "authToken inp"
  let ?G = "\<lambda>_ :: js_error. auth_first ?tok"
  show "no_use_yet []" by (simp add: no_use_yet_def)
  have pre: "triple no_use_yet m (\<lambda>_. no_use_yet) ?G"
    if "emits (\<lambda>e. use_name e = None) m" for m :: "unit io"
  proof (rule triple_weaken)
    show "triple no_use_yet m (\<lambda>_. no_use_yet) (\<lambda>_. no_use_yet)"
      using that by (rule triple_emits) (simp add: no_use_yet_def)
  qed (simp_all add: auth_first_def)
  have snoc: "auth_seen ?tok (t @ [auth_call ?tok])" if "no_use_yet t" for t
    unfolding auth_seen_def using that by (intro exI [of _ t] exI [of _ "[]"]) simp
  have auth: "triple no_use_yet (register_auth w inp) (\<lambda>_. auth_seen ?tok) ?G"
    unfolding register_auth_def io_when_def using assms
    by (auto intro!: triple_call snoc simp: auth_first_def)
  have rest: "triple (auth_seen ?tok)
      (io_seqs [use_primary w inp, use_extra w inp, export_signing_key w inp, setup_mode w inp])
      (\<lambda>_. auth_first ?tok) ?G"
  proof (rule triple_weaken)
    show "triple (auth_seen ?tok)
      (io_seqs [use_primary w inp, use_extra w inp, export_signing_key w inp, setup_mode w inp])
      (\<lambda>_. auth_seen ?tok) (\<lambda>_. auth_seen ?tok)"
      by (rule triple_emits [OF emits_any_rest]) (rule auth_seen_append)
  qed (simp_all add: auth_first_def)
  have body: "triple no_use_yet (io_seqs (setup_steps w inp)) (\<lambda>_. auth_first ?tok) ?G"
    unfolding setup_steps_def
    apply (subst io_seqs.simps, rule triple_seq [OF pre [OF emits_no_use_prelude(1)]])
    apply (subst io_seqs.simps, rule triple_seq [OF pre [OF emits_no_use_prelude(2)]])
    apply (subst io_seqs.simps, rule triple_seq [OF auth])
    apply (rule rest)
    done
  have handler: "triple (auth_first ?tok) (emit (SetFailed (failed_message e)))
      (\<lambda>_. auth_first ?tok) (\<lambda>_. auth_first ?tok)" for e
    by (rule triple_emit) (auto simp: auth_first_def no_use_yet_def auth_seen_append)
  show "triple no_use_yet (setup_job w inp) (\<lambda>_. auth_first ?tok) (\<lambda>_. auth_first ?tok)"
    unfolding setup_job_def using body handler by (rule triple_catch)
qed

section \<open>The two modes\<close>

lemmas setup_defs =
  setup_job_def setup_steps_def ensure_installed_def
  check_version_def register_auth_def use_primary_def use_extra_def export_signing_key_def
  setup_mode_def setup_daemon_def start_daemon_def register_hook_def record_pid_def
  mkdtemp_def openSync_def which_sync_def which_nothrow_def

lemmas upload_defs =
  upload_def upload_body_def upload_daemon_def readFile_def

lemma emits_mode_setup: "emits (mode_event w w' inp) (setup_job w inp)"
  unfolding setup_defs
  by (intro emits_rules)
    (simp_all add: mode_event_def snapshot_call_def push_call_def auth_call_def use_call_def
      cachix_def ENV_CACHIX_DAEMON_DIR_def js_def)

lemma emits_mode_upload: "emits (mode_event w w' inp) (upload w' inp)"
  unfolding upload_defs
  by (intro emits_rules)
    (simp_all add: mode_event_def snapshot_call_def push_call_def js_def)

section \<open>The \<open>upload\<close> step\<close>

lemmas upload_run_defs =
  trace_of_def run_def initial_def readFile_def
  upload_def upload_body_def upload_daemon_def
  io_bind_def io_seq_def io_catch_def io_when_def io_return_def
  emit_def call_def floating_def call_value_def log_event_def

lemma upload_skipped:
  assumes "skipPush inp = js ''true''"
  shows "upload w inp initial =
    (Inr (), \<lparr>trace = [StartGroup (js ''Cachix: push''), Info skip_push_message, EndGroup],
              unhandled = []\<rparr>)"
  using assms by (simp add: upload_run_defs)

lemma upload_without_credentials:
  assumes "skipPush inp \<noteq> js ''true''" "signingKey inp = []" "authToken inp = []"
  shows "upload w inp initial =
    (Inr (), \<lparr>trace = [StartGroup (js ''Cachix: push''), Info no_credentials_message, EndGroup],
              unhandled = []\<rparr>)"
  using assms by (simp add: upload_run_defs)


lemma upload_direct_trace:
  assumes "skipPush inp \<noteq> js ''true''" and "signingKey inp \<noteq> [] \<or> authToken inp \<noteq> []"
    and "useDaemon inp \<noteq> js ''true''"
  shows "trace_of (upload w inp) =
     [StartGroup (js ''Cachix: push''), push_call w inp] @
     (case fails w [StartGroup (js ''Cachix: push'')] (push_call w inp) of
        None \<Rightarrow> []
      | Some e \<Rightarrow> [SetFailed (failed_message e)]) @
     [EndGroup]"
  using assms by (auto simp: upload_run_defs split: option.splits)

lemma upload_daemon_trace:
  assumes "skipPush inp \<noteq> js ''true''" and "signingKey inp \<noteq> [] \<or> authToken inp \<noteq> []"
    and "useDaemon inp = js ''true''"
  shows "trace_of (upload w inp) =
     (let dir = or_undefined (env w ENV_CACHIX_DAEMON_DIR);
          start = StartGroup (js ''Cachix: push'');
          read = ReadFile (dir @ js ''/daemon.pid'');
          tail = TailNew (dir @ js ''/daemon.log'') True
      in case readFile_result w [start] (dir @ js ''/daemon.pid'') of
           Inl e \<Rightarrow> [start, read, SetFailed (failed_message e), EndGroup]
         | Inr content \<Rightarrow>
             (let found = Debug (js ''Found Cachix daemon with pid '' @
                                 number_text w (parseInt w content));
                  sending = Debug (js ''Sending SIGINT to Cachix daemon with pid '' @
                                   number_text w (parseInt w content));
                  kill = Kill (parseInt w content) (js ''SIGINT'');
                  waiting = Debug (js ''Waiting for Cachix daemon to exit...'')
              in case fails w [start, read, found] tail of
                   Some e \<Rightarrow> [start, read, found, tail, SetFailed (failed_message e), EndGroup]
                 | None \<Rightarrow>
                     [start, read, found, tail, TailOn (js ''line''), sending, kill, waiting,
                      TailUnwatch] @
                     (case fails w [start, read, found, tail, TailOn (js ''line''), sending, kill,
                                    waiting] TailUnwatch of
                        None \<Rightarrow> []
                      | Some e \<Rightarrow> [SetFailed (failed_message e)]) @
                     [EndGroup]))"
  using assms by (auto simp: upload_run_defs Let_def split: option.splits sum.splits)


lemma upload_helper_iff:
  "push_call w inp \<in> set (trace_of (upload w inp)) \<longleftrightarrow>
     skipPush inp \<noteq> js ''true'' \<and> (signingKey inp \<noteq> [] \<or> authToken inp \<noteq> []) \<and>
     useDaemon inp \<noteq> js ''true''"
proof -
  consider "skipPush inp = js ''true''"
    | "skipPush inp \<noteq> js ''true''" "signingKey inp = []" "authToken inp = []"
    | "skipPush inp \<noteq> js ''true''" "signingKey inp \<noteq> [] \<or> authToken inp \<noteq> []"
      "useDaemon inp \<noteq> js ''true''"
    | "skipPush inp \<noteq> js ''true''" "signingKey inp \<noteq> [] \<or> authToken inp \<noteq> []"
      "useDaemon inp = js ''true''"
    by blast
  then show ?thesis
  proof cases
    case 1
    then show ?thesis
      by (simp add: trace_of_def run_def upload_skipped push_call_def)
  next
    case 2
    then show ?thesis
      by (simp add: trace_of_def run_def upload_without_credentials push_call_def)
  next
    case 3
    then show ?thesis
      by (simp add: upload_direct_trace)
  next
    case 4
    then show ?thesis
      by (simp add: upload_daemon_trace Let_def push_call_def split: sum.splits option.splits)
  qed
qed

lemma upload_read_iff:
  "ReadFile (or_undefined (env w ENV_CACHIX_DAEMON_DIR) @ js ''/daemon.pid'')
     \<in> set (trace_of (upload w inp)) \<longleftrightarrow>
     skipPush inp \<noteq> js ''true'' \<and> (signingKey inp \<noteq> [] \<or> authToken inp \<noteq> []) \<and>
     useDaemon inp = js ''true''"
proof -
  consider "skipPush inp = js ''true''"
    | "skipPush inp \<noteq> js ''true''" "signingKey inp = []" "authToken inp = []"
    | "skipPush inp \<noteq> js ''true''" "signingKey inp \<noteq> [] \<or> authToken inp \<noteq> []"
      "useDaemon inp \<noteq> js ''true''"
    | "skipPush inp \<noteq> js ''true''" "signingKey inp \<noteq> [] \<or> authToken inp \<noteq> []"
      "useDaemon inp = js ''true''"
    by blast
  then show ?thesis
  proof cases
    case 1
    then show ?thesis
      by (simp add: trace_of_def run_def upload_skipped)
  next
    case 2
    then show ?thesis
      by (simp add: trace_of_def run_def upload_without_credentials)
  next
    case 3
    then show ?thesis
      by (simp add: upload_direct_trace push_call_def)
  next
    case 4
    then show ?thesis
      by (simp add: upload_daemon_trace Let_def split: sum.splits option.splits)
  qed
qed

lemma upload_skip_info_iff:
  "Info skip_push_message \<in> set (trace_of (upload w inp)) \<longleftrightarrow> skipPush inp = js ''true''"
proof -
  consider "skipPush inp = js ''true''"
    | "skipPush inp \<noteq> js ''true''" "signingKey inp = []" "authToken inp = []"
    | "skipPush inp \<noteq> js ''true''" "signingKey inp \<noteq> [] \<or> authToken inp \<noteq> []"
      "useDaemon inp \<noteq> js ''true''"
    | "skipPush inp \<noteq> js ''true''" "signingKey inp \<noteq> [] \<or> authToken inp \<noteq> []"
      "useDaemon inp = js ''true''"
    by blast
  then show ?thesis
  proof cases
    case 1
    then show ?thesis
      by (simp add: trace_of_def run_def upload_skipped)
  next
    case 2
    then show ?thesis
      by (simp add: trace_of_def run_def upload_without_credentials skip_push_message_def
          no_credentials_message_def js_def)
  next
    case 3
    then show ?thesis
      by (simp add: upload_direct_trace push_call_def split: option.splits)
  next
    case 4
    then show ?thesis
      by (simp add: upload_daemon_trace Let_def split: sum.splits option.splits)
  qed
qed

section \<open>The flags\<close>

lemma start_daemon_flags:
  "start_daemon w (inp\<lparr>useDaemon := v\<rparr>) = start_daemon w inp"
  "start_daemon w (inp\<lparr>skipAddingSubstituter := v\<rparr>) = start_daemon w inp"
  by (rule ext, simp add: start_daemon_def)+

lemma phases_ignore_useDaemon:
  "ensure_installed w (inp\<lparr>useDaemon := v\<rparr>) = ensure_installed w inp"
  "register_auth w (inp\<lparr>useDaemon := v\<rparr>) = register_auth w inp"
  "use_primary w (inp\<lparr>useDaemon := v\<rparr>) = use_primary w inp"
  "use_extra w (inp\<lparr>useDaemon := v\<rparr>) = use_extra w inp"
  "export_signing_key w (inp\<lparr>useDaemon := v\<rparr>) = export_signing_key w inp"
  by (simp_all add: ensure_installed_def register_auth_def use_primary_def use_extra_def
      export_signing_key_def installCommand_def)

lemma phases_ignore_skipAddingSubstituter:
  "ensure_installed w (inp\<lparr>skipAddingSubstituter := v\<rparr>) = ensure_installed w inp"
  "register_auth w (inp\<lparr>skipAddingSubstituter := v\<rparr>) = register_auth w inp"
  "use_extra w (inp\<lparr>skipAddingSubstituter := v\<rparr>) = use_extra w inp"
  "export_signing_key w (inp\<lparr>skipAddingSubstituter := v\<rparr>) = export_signing_key w inp"
  "setup_mode w (inp\<lparr>skipAddingSubstituter := v\<rparr>) = setup_mode w inp"
  by (simp_all add: ensure_installed_def register_auth_def use_extra_def
      export_signing_key_def installCommand_def setup_mode_def setup_daemon_def start_daemon_flags)

lemma setup_job_flag_cong:
  assumes "v \<noteq> js ''true''"
  shows "setup_job w (inp\<lparr>useDaemon := v\<rparr>) = setup_job w (inp\<lparr>useDaemon := js ''false''\<rparr>)"
    and "setup_job w (inp\<lparr>skipAddingSubstituter := v\<rparr>) =
         setup_job w (inp\<lparr>skipAddingSubstituter := js ''false''\<rparr>)"
proof -
  have f: "js ''false'' \<noteq> js ''true''" by (simp add: js_def)
  show "setup_job w (inp\<lparr>useDaemon := v\<rparr>) = setup_job w (inp\<lparr>useDaemon := js ''false''\<rparr>)"
    using assms f
    by (simp add: setup_job_def setup_steps_def phases_ignore_useDaemon setup_mode_def)
  show "setup_job w (inp\<lparr>skipAddingSubstituter := v\<rparr>) =
         setup_job w (inp\<lparr>skipAddingSubstituter := js ''false''\<rparr>)"
    using assms f
    by (simp add: setup_job_def setup_steps_def phases_ignore_skipAddingSubstituter use_primary_def)
qed

lemma upload_flag_cong:
  assumes "v \<noteq> js ''true''"
  shows "upload w (inp\<lparr>useDaemon := v\<rparr>) = upload w (inp\<lparr>useDaemon := js ''false''\<rparr>)"
    and "upload w (inp\<lparr>skipPush := v\<rparr>) = upload w (inp\<lparr>skipPush := js ''false''\<rparr>)"
proof -
  have f: "js ''false'' \<noteq> js ''true''" by (simp add: js_def)
  show "upload w (inp\<lparr>useDaemon := v\<rparr>) = upload w (inp\<lparr>useDaemon := js ''false''\<rparr>)"
    using assms f by (simp add: upload_def upload_body_def push_call_def)
  show "upload w (inp\<lparr>skipPush := v\<rparr>) = upload w (inp\<lparr>skipPush := js ''false''\<rparr>)"
    using assms f by (simp add: upload_def upload_body_def push_call_def)
qed

lemma no_daemon_events:
  assumes "useDaemon inp \<noteq> js ''true''"
  shows "\<not> list_ex daemon_event (trace_of (setup_job w inp) @ trace_of (upload w' inp))"
proof -
  have "list_all (mode_event w w' inp) (trace_of (setup_job w inp) @ trace_of (upload w' inp))"
    using emits_trace_of [OF emits_mode_setup [of w w' inp]]
      emits_trace_of [OF emits_mode_upload [of w w' inp]]
    by simp
  with assms show ?thesis
    unfolding list_all_iff list_ex_iff mode_event_def by auto
qed

section \<open>The daemon directory\<close>

lemma emits_start_daemon_dir: "emits (about_dir inp d) (start_daemon w inp d)"
  unfolding start_daemon_def register_hook_def record_pid_def openSync_def which_sync_def
  by (intro emits_rules) (auto simp: ENV_CACHIX_DAEMON_DIR_def)

lemma emits_before_daemon:
  "emits (\<lambda>e. \<forall>d. about_dir inp d e)
     (io_seqs [ensure_installed w inp, check_version w, register_auth w inp, use_primary w inp,
               use_extra w inp, export_signing_key w inp])"
  unfolding ensure_installed_def which_nothrow_def check_version_def register_auth_def
    use_primary_def use_extra_def export_signing_key_def
  by (intro emits_rules)
    (simp_all add: ENV_CACHIX_DAEMON_DIR_def js_def auth_call_def use_call_def)

lemma io_seqs_append: "io_seqs (xs @ ys) = io_seq (io_seqs xs) (io_seqs ys)"
proof (induction xs)
  case Nil
  show ?case
    by (rule ext) (simp add: io_seq_def io_bind_def io_return_def)
next
  case (Cons x xs)
  have "io_seq (io_seq a b) c = io_seq a (io_seq b c)" for a b :: "unit io" and c :: "unit io"
    by (rule ext) (simp add: io_seq_def io_bind_def split: prod.splits sum.splits)
  with Cons show ?case by simp
qed

lemma setup_mode_one_dir:
  "triple (no_dir_yet inp) (setup_mode w inp) (\<lambda>_. one_dir inp) (\<lambda>_. one_dir inp)"
proof (cases "useDaemon inp = js ''true''")
  case True
  have "triple (no_dir_yet inp) (setup_daemon w inp) (\<lambda>_. one_dir inp) (\<lambda>_. one_dir inp)"
    unfolding setup_daemon_def mkdtemp_def
  proof (rule triple_bind [where R = "\<lambda>d t. list_all (about_dir inp d) t"])
    show "triple (no_dir_yet inp)
       (call_value (Mkdtemp (path_join w (tmpdir w) (js ''cachix-daemon-'')))
          (\<lambda>h. mkdtemp_result w h (path_join w (tmpdir w) (js ''cachix-daemon-''))))
       (\<lambda>d t. list_all (about_dir inp d) t) (\<lambda>_. one_dir inp)"
      by (rule triple_call_value) (auto simp: no_dir_yet_def one_dir_def)
  next
    fix d
    have "triple (list_all (about_dir inp d)) (start_daemon w inp d)
        (\<lambda>_. list_all (about_dir inp d)) (\<lambda>_. list_all (about_dir inp d))"
      by (rule triple_emits [OF emits_start_daemon_dir]) simp
    then show "triple (list_all (about_dir inp d)) (start_daemon w inp d)
        (\<lambda>_. one_dir inp) (\<lambda>_. one_dir inp)"
      by (rule triple_weaken) (auto simp: one_dir_def)
  qed
  with True show ?thesis by (simp add: setup_mode_def)
next
  case False
  have "triple (no_dir_yet inp) (call w (snapshot_call w)) (\<lambda>_. one_dir inp) (\<lambda>_. one_dir inp)"
    by (rule triple_call) (auto simp: no_dir_yet_def one_dir_def snapshot_call_def)
  with False show ?thesis by (simp add: setup_mode_def)
qed

lemma setup_job_one_dir: "one_dir inp (trace_of (setup_job w inp))"
proof (rule triple_trace_of [where P = "no_dir_yet inp"])
  show "no_dir_yet inp []" by (simp add: no_dir_yet_def)
  have split: "setup_steps w inp =
      [ensure_installed w inp, check_version w, register_auth w inp, use_primary w inp,
       use_extra w inp, export_signing_key w inp] @ [setup_mode w inp]"
    by (simp add: setup_steps_def)
  have "triple (no_dir_yet inp)
      (io_seqs [ensure_installed w inp, check_version w, register_auth w inp, use_primary w inp,
                use_extra w inp, export_signing_key w inp])
      (\<lambda>_. no_dir_yet inp) (\<lambda>_. no_dir_yet inp)"
    by (rule triple_emits [OF emits_before_daemon]) (auto simp: no_dir_yet_def list_all_iff)
  then have 1: "triple (no_dir_yet inp)
      (io_seqs [ensure_installed w inp, check_version w, register_auth w inp, use_primary w inp,
                use_extra w inp, export_signing_key w inp])
      (\<lambda>_. no_dir_yet inp) (\<lambda>_. one_dir inp)"
    by (rule triple_weaken) (auto simp: no_dir_yet_def one_dir_def)
  have 2: "triple (no_dir_yet inp) (io_seqs [setup_mode w inp]) (\<lambda>_. one_dir inp) (\<lambda>_. one_dir inp)"
    using setup_mode_one_dir [of inp w]
    by (simp add: triple_seq triple_return)
  have body: "triple (no_dir_yet inp) (io_seqs (setup_steps w inp)) (\<lambda>_. one_dir inp) (\<lambda>_. one_dir inp)"
    unfolding split io_seqs_append using 1 2 by (rule triple_seq)
  have handler: "triple (one_dir inp) (emit (SetFailed (failed_message e)))
      (\<lambda>_. one_dir inp) (\<lambda>_. one_dir inp)" for e
    by (rule triple_emit) (auto simp: one_dir_def)
  show "triple (no_dir_yet inp) (setup_job w inp) (\<lambda>_. one_dir inp) (\<lambda>_. one_dir inp)"
    unfolding setup_job_def using body handler by (rule triple_catch)
qed


lemma hook_script_shape:
  "hook_script bin d n =
     (js [CHR 0x0A] @ js ''      #!/bin/sh'' @ js [CHR 0x0A] @ js [CHR 0x0A] @
      js ''      set -eux'' @ js [CHR 0x0A] @
      js ''      set -f #disable globbing'' @ js [CHR 0x0A] @
      js ''      export IFS='' @ js [CHR 0x27, CHR 0x27] @ js [CHR 0x0A] @ js [CHR 0x0A] @
      js ''      exec '' @ bin @ js '' daemon push         '') @
     js ''--socket '' @ socket_path d @ js ''         '' @ n @ js '' $OUT_PATHS'' @
     js [CHR 0x0A] @ js ''     ''"
  by (simp add: hook_script_def socket_path_def js_def)

lemma exported_lookup:
  assumes "list_all (\<lambda>e. \<forall>v. e = ExportVariable k v \<longrightarrow> v = d) t"
  shows "exported t e0 k = (if \<exists>v. ExportVariable k v \<in> set t then Some d else e0 k)"
  using assms
proof (induction t arbitrary: e0)
  case Nil
  then show ?case by simp
next
  case (Cons x t)
  then show ?case by (cases x) auto
qed

lemma emits_upload_reads:
  "emits (reads_from (or_undefined (env w ENV_CACHIX_DAEMON_DIR))) (upload w inp)"
  unfolding upload_def upload_body_def upload_daemon_def readFile_def
  by (intro emits_rules) (simp_all add: push_call_def)

section \<open>The branch that \<open>setup\<close> enters\<close>

lemma triple_any: "triple P m (\<lambda>_ _. True) (\<lambda>_ _. True)"
  by (simp add: triple_def split: prod.splits sum.splits)

lemma triple_spawn:
  assumes "\<And>t pid. P t \<Longrightarrow> Q pid (t @ [Spawn c a io d])"
    and "\<And>t e. P t \<Longrightarrow> E e (t @ [Spawn c a io d])"
  shows "triple P (spawn w c a io d) Q E"
  using assms by (simp add: triple_def spawn_def log_event_def split: spawn_result.split)

lemma emits_after_spawn:
  "emits any_event
     (io_seq (record_pid w d pid)
        (io_bind (which_sync w cachix)
           (\<lambda>cachixBin.
              io_seqs
                [emit (Debug (js ''Found cachix executable: '' @ cachixBin)),
                 call w (WriteFile (hook_path d) (hook_script cachixBin d (name inp))),
                 floating w (Chmod (hook_path d) mode_755),
                 register_hook w (hook_path d),
                 call w (ExportVariable ENV_CACHIX_DAEMON_DIR d),
                 emit (Debug (js ''Cachix daemon started with pid '' @
                              or_undefined (map_option dec pid))),
                 emit Unref])))"
  unfolding record_pid_def which_sync_def register_hook_def openSync_def
  by (intro emits_rules) simp_all

lemma start_daemon_spawns:
  "triple (\<lambda>t. True) (start_daemon w inp d)
     (\<lambda>_ t. \<exists>d log. Spawn cachix (spawn_args d) [Ignore, Fd log, Fd log] True \<in> set t)
     (\<lambda>_ _. True)"
  unfolding start_daemon_def openSync_def
proof (rule triple_bind [where R = "\<lambda>_ _. True"])
  show "triple (\<lambda>t. True)
     (call_value (OpenSync (d @ js ''/daemon.log'') (js ''a''))
        (\<lambda>h. openSync_result w h (d @ js ''/daemon.log'')))
     (\<lambda>_ _. True) (\<lambda>_ _. True)"
    by (rule triple_any)
next
  fix log
  let ?S = "Spawn cachix (spawn_args d) [Ignore, Fd log, Fd log] True"
  let ?rest = "\<lambda>pid.
       io_seq (record_pid w d pid)
        (io_bind (which_sync w cachix)
           (\<lambda>cachixBin.
              io_seqs
                [emit (Debug (js ''Found cachix executable: '' @ cachixBin)),
                 call w (WriteFile (hook_path d) (hook_script cachixBin d (name inp))),
                 floating w (Chmod (hook_path d) mode_755),
                 register_hook w (hook_path d),
                 call w (ExportVariable ENV_CACHIX_DAEMON_DIR d),
                 emit (Debug (js ''Cachix daemon started with pid '' @
                              or_undefined (map_option dec pid))),
                 emit Unref]))"
  have 1: "triple (\<lambda>t. True) (spawn w cachix (spawn_args d) [Ignore, Fd log, Fd log] True)
      (\<lambda>_ t. ?S \<in> set t) (\<lambda>_ _. True)"
    by (rule triple_spawn) simp_all
  have 2: "triple (\<lambda>t. ?S \<in> set t) (?rest pid)
      (\<lambda>_ t. \<exists>d log. Spawn cachix (spawn_args d) [Ignore, Fd log, Fd log] True \<in> set t)
      (\<lambda>_ _. True)" for pid
  proof (rule triple_weaken)
    show "triple (\<lambda>t. ?S \<in> set t) (?rest pid) (\<lambda>_ t. ?S \<in> set t) (\<lambda>_ t. ?S \<in> set t)"
      by (rule triple_emits [OF emits_after_spawn]) simp
  qed blast+
  from 1 2 show "triple (\<lambda>t. True)
     (io_bind (spawn w cachix (spawn_args d) [Ignore, Fd log, Fd log] True) ?rest)
     (\<lambda>_ t. \<exists>d log. Spawn cachix (spawn_args d) [Ignore, Fd log, Fd log] True \<in> set t)
     (\<lambda>_ _. True)"
    by (rule triple_bind)
qed

lemma setup_mode_starts:
  "triple (\<lambda>t. True) (setup_mode w inp) (\<lambda>_. mode_started w inp) (\<lambda>_ _. True)"
proof (cases "useDaemon inp = js ''true''")
  case True
  have "triple (\<lambda>t. True) (setup_daemon w inp)
     (\<lambda>_ t. \<exists>d log. Spawn cachix (spawn_args d) [Ignore, Fd log, Fd log] True \<in> set t)
     (\<lambda>_ _. True)"
    unfolding setup_daemon_def
    by (rule triple_bind [where R = "\<lambda>_ _. True"]) (rule triple_any, rule start_daemon_spawns)
  then have "triple (\<lambda>t. True) (setup_daemon w inp) (\<lambda>_. mode_started w inp) (\<lambda>_ _. True)"
    by (rule triple_weaken) (simp_all add: mode_started_def True)
  with True show ?thesis by (simp add: setup_mode_def)
next
  case False
  have "triple (\<lambda>t. True) (call w (snapshot_call w)) (\<lambda>_ t. snapshot_call w \<in> set t) (\<lambda>_ _. True)"
    by (rule triple_call) simp_all
  then have "triple (\<lambda>t. True) (call w (snapshot_call w)) (\<lambda>_. mode_started w inp) (\<lambda>_ _. True)"
    by (rule triple_weaken) (simp_all add: mode_started_def False)
  with False show ?thesis by (simp add: setup_mode_def)
qed

lemma setup_job_mode_started:
  "job_failed (trace_of (setup_job w inp)) \<or> mode_started w inp (trace_of (setup_job w inp))"
proof (rule triple_trace_of [where P = "\<lambda>t. True"])
  let ?Q = "\<lambda>t. job_failed t \<or> mode_started w inp t"
  have split: "setup_steps w inp =
      [ensure_installed w inp, check_version w, register_auth w inp, use_primary w inp,
       use_extra w inp, export_signing_key w inp] @ [setup_mode w inp]"
    by (simp add: setup_steps_def)
  have 1: "triple (\<lambda>t. True)
      (io_seqs [ensure_installed w inp, check_version w, register_auth w inp, use_primary w inp,
                use_extra w inp, export_signing_key w inp])
      (\<lambda>_ _. True) (\<lambda>_ _. True)"
    by (rule triple_any)
  have 2: "triple (\<lambda>t. True) (io_seqs [setup_mode w inp]) (\<lambda>_. ?Q) (\<lambda>_ _. True)"
  proof (rule triple_weaken)
    show "triple (\<lambda>t. True) (io_seqs [setup_mode w inp]) (\<lambda>_. mode_started w inp) (\<lambda>_ _. True)"
      using setup_mode_starts [of w inp] by (simp add: triple_seq triple_return)
  qed simp_all
  have body: "triple (\<lambda>t. True) (io_seqs (setup_steps w inp)) (\<lambda>_. ?Q) (\<lambda>_ _. True)"
    unfolding split io_seqs_append using 1 2 by (rule triple_seq)
  have handler: "triple (\<lambda>t. True) (emit (SetFailed (failed_message e))) (\<lambda>_. ?Q) (\<lambda>_. ?Q)" for e
    by (rule triple_emit) (simp add: job_failed_append job_failed_single)
  show "triple (\<lambda>t. True) (setup_job w inp) (\<lambda>_. ?Q) (\<lambda>_. ?Q)"
    unfolding setup_job_def using body handler by (rule triple_catch)
qed simp

lemma mode_events_of_setup:
  "list_all (mode_event w w inp) (trace_of (setup_job w inp))"
  by (rule emits_trace_of [OF emits_mode_setup])

lemma snapshot_iff:
  assumes "\<not> job_failed (trace_of (setup_job w inp))"
  shows "snapshot_call w \<in> set (trace_of (setup_job w inp)) \<longleftrightarrow> useDaemon inp \<noteq> js ''true''"
proof
  assume "snapshot_call w \<in> set (trace_of (setup_job w inp))"
  with mode_events_of_setup [of w inp] show "useDaemon inp \<noteq> js ''true''"
    unfolding list_all_iff mode_event_def by blast
next
  assume "useDaemon inp \<noteq> js ''true''"
  with setup_job_mode_started [of w inp] assms
  show "snapshot_call w \<in> set (trace_of (setup_job w inp))"
    by (simp add: mode_started_def)
qed

lemma spawn_iff:
  assumes "\<not> job_failed (trace_of (setup_job w inp))"
  shows "(\<exists>d log. Spawn cachix (spawn_args d) [Ignore, Fd log, Fd log] True
            \<in> set (trace_of (setup_job w inp))) \<longleftrightarrow> useDaemon inp = js ''true''"
proof
  assume "\<exists>d log. Spawn cachix (spawn_args d) [Ignore, Fd log, Fd log] True
            \<in> set (trace_of (setup_job w inp))"
  then obtain d log where "Spawn cachix (spawn_args d) [Ignore, Fd log, Fd log] True
            \<in> set (trace_of (setup_job w inp))" by blast
  with mode_events_of_setup [of w inp]
  have "mode_event w w inp (Spawn cachix (spawn_args d) [Ignore, Fd log, Fd log] True)"
    unfolding list_all_iff by blast
  then show "useDaemon inp = js ''true''"
    by (simp add: mode_event_def)
next
  assume "useDaemon inp = js ''true''"
  with setup_job_mode_started [of w inp] assms
  show "\<exists>d log. Spawn cachix (spawn_args d) [Ignore, Fd log, Fd log] True
            \<in> set (trace_of (setup_job w inp))"
    by (simp add: mode_started_def)
qed


section \<open>What \<open>setup\<close> reports\<close>

text \<open>
  The errors thrown inside the \<open>try\<close> block never leave \<open>setup\<close>: each becomes the
  failure annotation, whose text ends with the error's message.
\<close>

lemma setup_job_returns: "fst (setup_job w inp s) = Inr ()"
  by (simp add: setup_job_def io_catch_def emit_def split: prod.splits sum.splits)

lemma thrown_error_is_reported:
  assumes "io_seqs (setup_steps w inp) s = (Inl e, s')"
  shows "setup_job w inp s = (Inr (), log_event (SetFailed (failed_message e)) s')"
  using assms by (simp add: setup_job_def io_catch_def emit_def)

lemma failed_message_carries_message: "suffix (err_message e) (failed_message e)"
  by (cases e) (simp add: failed_message_def suffix_def)

section \<open>The sample runs, evaluated\<close>

lemmas run_defs =
  trace_of_def run_def initial_def setup_job_def setup_steps_def ensure_installed_def
  check_version_def register_auth_def use_primary_def use_extra_def export_signing_key_def
  setup_mode_def setup_daemon_def start_daemon_def register_hook_def record_pid_def
  mkdtemp_def openSync_def which_sync_def which_nothrow_def readFile_def spawn_def
  upload_def upload_body_def upload_daemon_def
  io_bind_def io_seq_def io_catch_def io_when_def io_return_def
  emit_def call_def floating_def call_value_def log_event_def

lemmas sample_defs =
  world0_def world_strict_def world_chmod_def inputs0_def tmpdir_def home_def trim_def
  is_js_space_def comma_def cachix_def js_def auth_call_def use_call_def hook_path_def
  hook_script_def spawn_args_def socket_path_def ENV_CACHIX_DAEMON_DIR_def mode_755_def
  use_error_def chmod_error_def failed_message_def snapshot_call_def push_call_def

lemma setup_world0:
  "trace_of (setup_job world0 inputs0) =
     [WhichSync cachix,
      StartGroup (js ''Cachix: checking version''), Exec cachix [js ''--version''], EndGroup,
      auth_call (js ''tok''),
      StartGroup (js ''Cachix: using cache my-cache''), use_call (js ''my-cache''), EndGroup,
      StartGroup (js ''Cachix: using extra caches a, b,,c''),
      use_call (js ''a''), use_call (js ''b''), use_call [], use_call (js ''c''), EndGroup,
      ExportVariable (js ''CACHIX_SIGNING_KEY'') (js ''key''),
      Mkdtemp (js ''/tmp/cachix-daemon-''),
      OpenSync (js ''/tmp/cachix-daemon-AbCdEf/daemon.log'') (js ''a''),
      Spawn cachix (spawn_args (js ''/tmp/cachix-daemon-AbCdEf'')) [Ignore, Fd 3, Fd 3] True,
      WriteFile (js ''/tmp/cachix-daemon-AbCdEf/daemon.pid'') (js ''4242''),
      WhichSync cachix,
      Debug (js ''Found cachix executable: /usr/bin/cachix''),
      WriteFile (hook_path (js ''/tmp/cachix-daemon-AbCdEf''))
        (hook_script (js ''/usr/bin/cachix'') (js ''/tmp/cachix-daemon-AbCdEf'') (js ''my-cache'')),
      Chmod (hook_path (js ''/tmp/cachix-daemon-AbCdEf'')) mode_755,
      Mkdir (js ''/home/runner/.config/nix'') True,
      OpenSync (js ''/home/runner/.config/nix/nix.conf'') (js ''a''),
      WriteSync 3
        (js [CHR 0x0A] @
         js ''      post-build-hook = /tmp/cachix-daemon-AbCdEf/cachix-post-build-hook.sh'' @
         js [CHR 0x0A] @ js ''      ''),
      Close 3,
      ExportVariable ENV_CACHIX_DAEMON_DIR (js ''/tmp/cachix-daemon-AbCdEf''),
      Debug (js ''Cachix daemon started with pid 4242''),
      Unref]"
  by (simp add: run_defs sample_defs)

lemma setup_world_strict:
  "trace_of (setup_job world_strict inputs0) =
     [WhichSync cachix,
      StartGroup (js ''Cachix: checking version''), Exec cachix [js ''--version''], EndGroup,
      auth_call (js ''tok''),
      StartGroup (js ''Cachix: using cache my-cache''), use_call (js ''my-cache''), EndGroup,
      StartGroup (js ''Cachix: using extra caches a, b,,c''),
      use_call (js ''a''), use_call (js ''b''), use_call [],
      SetFailed (failed_message use_error)]"
  by (simp add: run_defs sample_defs)

lemma upload_world0:
  "trace_of (upload world0 inputs0) =
     [StartGroup (js ''Cachix: push''),
      ReadFile (js ''undefined/daemon.pid''),
      Debug (js ''Found Cachix daemon with pid 4242''),
      TailNew (js ''undefined/daemon.log'') True,
      TailOn (js ''line''),
      Debug (js ''Sending SIGINT to Cachix daemon with pid 4242''),
      Kill (Num 4242) (js ''SIGINT''),
      Debug (js ''Waiting for Cachix daemon to exit...''),
      TailUnwatch,
      EndGroup]"
  by (simp add: run_defs sample_defs)

lemma upload_world_post:
  "trace_of (upload world_post inputs0) =
     [StartGroup (js ''Cachix: push''),
      ReadFile (js ''/tmp/cachix-daemon-AbCdEf/daemon.pid''),
      Debug (js ''Found Cachix daemon with pid 4242''),
      TailNew (js ''/tmp/cachix-daemon-AbCdEf/daemon.log'') True,
      TailOn (js ''line''),
      Debug (js ''Sending SIGINT to Cachix daemon with pid 4242''),
      Kill (Num 4242) (js ''SIGINT''),
      Debug (js ''Waiting for Cachix daemon to exit...''),
      TailUnwatch,
      EndGroup]"
  unfolding world_post_def setup_world0
  by (simp add: run_defs sample_defs)


lemma setup_world0_direct:
  "trace_of (setup_job world0 inputs_direct) =
     [WhichSync cachix,
      StartGroup (js ''Cachix: checking version''), Exec cachix [js ''--version''], EndGroup,
      auth_call (js ''tok''),
      StartGroup (js ''Cachix: using cache my-cache''), use_call (js ''my-cache''), EndGroup,
      StartGroup (js ''Cachix: using extra caches a, b,,c''),
      use_call (js ''a''), use_call (js ''b''), use_call [], use_call (js ''c''), EndGroup,
      ExportVariable (js ''CACHIX_SIGNING_KEY'') (js ''key''),
      snapshot_call world0]"
  by (simp add: inputs_direct_def run_defs sample_defs)

lemma conj_parts:
  "A \<and> B \<and> C \<and> D \<and> E \<and> F \<Longrightarrow> A"
  "A \<and> B \<and> C \<and> D \<and> E \<and> F \<Longrightarrow> B"
  "A \<and> B \<and> C \<and> D \<and> E \<and> F \<Longrightarrow> C"
  "A \<and> B \<and> C \<and> D \<and> E \<and> F \<Longrightarrow> D"
  "A \<and> B \<and> C \<and> D \<and> E \<and> F \<Longrightarrow> E"
  "A \<and> B \<and> C \<and> D \<and> E \<and> F \<Longrightarrow> F"
  by blast+

section \<open>Registration of the extra caches\<close>

text \<open>
  Claim C3. When \<open>extraPullNames\<close> is not empty, the registrations that \<open>setup\<close>
  issues are, in this order, the primary cache (unless skipped) and then the pieces of
  \<open>extraPullNames\<close> between the commas, each trimmed: always an initial part of
  that list, and the whole list unless the step stopped at a call that failed (so the
  whole list when the step does not fail): each piece is registered once, by a call of
  its own, in input order. A registration that fails is followed by the failure
  annotation and by no other call.
\<close>

theorem extra_caches_registered_in_order:
  assumes "extraPullNames inp \<noteq> []"
  shows "let t = trace_of (setup_job w inp);
             names = primary_use inp @ map trim (split_on comma (extraPullNames inp))
         in prefix (use_calls t) names \<and>
            (use_calls t = names \<or>
             (\<exists>t0 ev e. t = t0 @ [ev, SetFailed (failed_message e)] \<and> fails w t0 ev = Some e)) \<and>
            (\<not> job_failed t \<longrightarrow> use_calls t = names) \<and>
            (\<forall>i e. i < length t \<and> use_name (t ! i) \<noteq> None \<and>
                   fails w (take i t) (t ! i) = Some e \<longrightarrow>
                   drop (Suc i) t = [SetFailed (failed_message e)])"
proof -
  have ex: "expected_uses inp = primary_use inp @ map trim (split_on comma (extraPullNames inp))"
    using assms by (simp add: expected_uses_def extra_uses_def)
  note o = setup_job_outcome [of w inp]
  show ?thesis
    unfolding Let_def ex [symmetric]
    using outcome_prefix [OF o] outcome_complete_or_stopped [OF o] outcome_complete [OF o]
      outcome_abort [OF o]
    by blast
qed

theorem extra_caches_registered_in_order_witness:
  "extraPullNames inputs0 \<noteq> [] \<and>
   \<not> job_failed (trace_of (setup_job world0 inputs0)) \<and>
   use_calls (trace_of (setup_job world0 inputs0)) = [js ''my-cache'', js ''a'', js ''b'', [], js ''c''] \<and>
   fails world_strict (take 11 (trace_of (setup_job world_strict inputs0)))
     (trace_of (setup_job world_strict inputs0) ! 11) = Some use_error \<and>
   drop 12 (trace_of (setup_job world_strict inputs0)) = [SetFailed (failed_message use_error)]"
proof -
  have n: "extraPullNames inputs0 \<noteq> []"
    by (simp add: inputs0_def js_def)
  have ok: "\<not> job_failed (trace_of (setup_job world0 inputs0))"
    by (simp add: setup_world0 job_failed_def auth_call_def use_call_def)
  have names: "primary_use inputs0 @ map trim (split_on comma (extraPullNames inputs0)) =
      [js ''my-cache'', js ''a'', js ''b'', [], js ''c'']"
    by (simp add: primary_use_def inputs0_def trim_def is_js_space_def comma_def js_def)
  have f: "fails world_strict (take 11 (trace_of (setup_job world_strict inputs0)))
      (trace_of (setup_job world_strict inputs0) ! 11) = Some use_error"
    unfolding setup_world_strict by (simp add: world_strict_def)
  have u: "use_name (trace_of (setup_job world_strict inputs0) ! 11) \<noteq> None"
    by (simp add: setup_world_strict use_name_use_call)
  have l: "11 < length (trace_of (setup_job world_strict inputs0))"
    by (simp add: setup_world_strict)
  from extra_caches_registered_in_order [OF n, of world0] ok names
  have 1: "use_calls (trace_of (setup_job world0 inputs0)) = [js ''my-cache'', js ''a'', js ''b'', [], js ''c'']"
    by (simp add: Let_def)
  from extra_caches_registered_in_order [OF n, of world_strict] l u f
  have 2: "drop (Suc 11) (trace_of (setup_job world_strict inputs0)) = [SetFailed (failed_message use_error)]"
    unfolding Let_def by blast
  from n ok 1 f 2 show ?thesis by simp
qed

section \<open>Empty pieces of \<open>extraPullNames\<close>\<close>



section \<open>Authentication comes first\<close>

text \<open>
  Claim C8. When \<open>authToken\<close> is not empty, every call \<open>exec('cachix', ['use', x])\<close> in
  the trace of \<open>setup\<close> comes after the call \<open>exec('cachix', ['authtoken', authToken])\<close>.
\<close>

theorem authentication_precedes_use:
  assumes "authToken inp \<noteq> []"
    and "j < length (trace_of (setup_job w inp))"
    and "trace_of (setup_job w inp) ! j = Exec (js ''cachix'') [js ''use'', x]"
  shows "\<exists>i<j. trace_of (setup_job w inp) ! i =
           Exec (js ''cachix'') [js ''authtoken'', authToken inp]"
proof -
  from assms(3) have "use_name (trace_of (setup_job w inp) ! j) \<noteq> None"
    by (simp add: cachix_def)
  with setup_job_auth_first [OF assms(1)] assms(2)
  have "\<exists>i<j. trace_of (setup_job w inp) ! i = auth_call (authToken inp)"
    by (rule auth_first_index)
  then show ?thesis
    by (simp add: auth_call_def cachix_def)
qed

theorem authentication_precedes_use_witness:
  "authToken inputs0 \<noteq> [] \<and> 6 < length (trace_of (setup_job world0 inputs0)) \<and>
   trace_of (setup_job world0 inputs0) ! 6 = Exec (js ''cachix'') [js ''use'', js ''my-cache''] \<and>
   trace_of (setup_job world0 inputs0) ! 4 = Exec (js ''cachix'') [js ''authtoken'', js ''tok''] \<and>
   (\<exists>i<6. trace_of (setup_job world0 inputs0) ! i =
      Exec (js ''cachix'') [js ''authtoken'', authToken inputs0])"
proof -
  have 1: "authToken inputs0 \<noteq> []"
    by (simp add: inputs0_def js_def)
  have 2: "6 < length (trace_of (setup_job world0 inputs0))"
    by (simp add: setup_world0)
  have 3: "trace_of (setup_job world0 inputs0) ! 6 = Exec (js ''cachix'') [js ''use'', js ''my-cache'']"
    by (simp add: setup_world0 use_call_def cachix_def)
  have 4: "trace_of (setup_job world0 inputs0) ! 4 = Exec (js ''cachix'') [js ''authtoken'', js ''tok'']"
    by (simp add: setup_world0 auth_call_def cachix_def)
  from authentication_precedes_use [OF 1 2 3] 1 2 3 4 show ?thesis by simp
qed

section \<open>One mode per run\<close>

text \<open>
  Claim C6. Whatever the value of \<open>useDaemon\<close>, a run (the \<open>setup\<close> step and the
  \<open>upload\<close> step on the same inputs) never has both a call of the daemon lifecycle
  and a call of the direct-push lifecycle: with a daemon call in either step, \<open>setup\<close>
  has not taken the store-path snapshot and \<open>upload\<close> has not invoked the push helper.
\<close>

theorem modes_are_exclusive:
  "\<not> (list_ex daemon_event (trace_of (setup_job w inp) @ trace_of (upload w' inp)) \<and>
      (snapshot_call w \<in> set (trace_of (setup_job w inp)) \<or>
       push_call w' inp \<in> set (trace_of (upload w' inp))))"
proof -
  have "list_all (mode_event w w' inp) (trace_of (setup_job w inp) @ trace_of (upload w' inp))"
    using emits_trace_of [OF emits_mode_setup [of w w' inp]]
      emits_trace_of [OF emits_mode_upload [of w w' inp]]
    by simp
  then show ?thesis
    unfolding list_all_iff list_ex_iff mode_event_def by auto
qed

theorem modes_are_exclusive_witness:
  "list_ex daemon_event (trace_of (setup_job world0 inputs0) @ trace_of (upload world0 inputs0)) \<and>
   snapshot_call world0 \<notin> set (trace_of (setup_job world0 inputs0)) \<and>
   push_call world0 inputs0 \<notin> set (trace_of (upload world0 inputs0))"
proof -
  have "list_ex daemon_event (trace_of (setup_job world0 inputs0) @ trace_of (upload world0 inputs0))"
    by (simp add: setup_world0 upload_world0)
  with modes_are_exclusive [of world0 inputs0 world0] show ?thesis by blast
qed

section \<open>When \<open>upload\<close> pushes\<close>

text \<open>
  Claim C1. Let pushing be enabled when \<open>skipPush\<close> is not \<open>true\<close> and \<open>signingKey\<close> or
  \<open>authToken\<close> is not empty. The push helper \<open>push-paths.sh\<close> is called, with the client
  name, \<open>cachixArgs\<close>, \<open>name\<close>, \<open>pathsToPush\<close> and \<open>pushFilter\<close>, if and only if pushing is
  enabled and \<open>useDaemon\<close> is not \<open>true\<close>; the daemon's pid file is read if and only if
  pushing is enabled and \<open>useDaemon\<close> is \<open>true\<close>. When \<open>skipPush\<close> is \<open>true\<close>, and when both
  credentials are empty, the step returns normally after three events: it opens the
  group, prints an informational message and closes the group. When pushing is
  enabled the trace is the one given below: in direct mode the call of the push helper,
  with a failure annotation when it fails; in daemon mode the read of the pid file, the
  tail of the log and \<open>SIGINT\<close> sent to the pid read, with a failure annotation when the
  read, the tail or the unwatch fails, and none when the signal cannot be delivered.
\<close>

theorem upload_pushes_iff_enabled_with_credentials:
  "let t = trace_of (upload w inp);
       enabled = (skipPush inp \<noteq> js ''true'' \<and> (signingKey inp \<noteq> [] \<or> authToken inp \<noteq> []));
       start = StartGroup (js ''Cachix: push'');
       helper = Exec (dirname w @ js ''/push-paths.sh'')
                  [js ''cachix'', cachixArgs inp, name inp, pathsToPush inp, pushFilter inp];
       dir = or_undefined (env w (js ''CACHIX_DAEMON_DIR''));
       read = ReadFile (dir @ js ''/daemon.pid'');
       tail = TailNew (dir @ js ''/daemon.log'') True;
       failure = (\<lambda>e. SetFailed (js ''Action failed with error: '' @ error_toString e))
   in (helper \<in> set t \<longleftrightarrow> enabled \<and> useDaemon inp \<noteq> js ''true'') \<and>
      (read \<in> set t \<longleftrightarrow> enabled \<and> useDaemon inp = js ''true'') \<and>
      (skipPush inp = js ''true'' \<longrightarrow>
         upload w inp initial =
           (Inr (), \<lparr>trace = [start, Info (js ''Pushing is disabled as skipPush is set to true''),
                               EndGroup],
                     unhandled = []\<rparr>)) \<and>
      (skipPush inp \<noteq> js ''true'' \<and> signingKey inp = [] \<and> authToken inp = [] \<longrightarrow>
         upload w inp initial =
           (Inr (), \<lparr>trace = [start,
                               Info (js ''Pushing is disabled as signingKey nor authToken are set (or are empty?) in your YAML file.''),
                               EndGroup],
                     unhandled = []\<rparr>)) \<and>
      (enabled \<and> useDaemon inp \<noteq> js ''true'' \<longrightarrow>
         t = [start, helper] @
             (case fails w [start] helper of None \<Rightarrow> [] | Some e \<Rightarrow> [failure e]) @
             [EndGroup]) \<and>
      (enabled \<and> useDaemon inp = js ''true'' \<longrightarrow>
         (case readFile_result w [start] (dir @ js ''/daemon.pid'') of
            Inl e \<Rightarrow> t = [start, read, failure e, EndGroup]
          | Inr content \<Rightarrow>
              (let found = Debug (js ''Found Cachix daemon with pid '' @
                                  number_text w (parseInt w content));
                   sending = Debug (js ''Sending SIGINT to Cachix daemon with pid '' @
                                    number_text w (parseInt w content));
                   kill = Kill (parseInt w content) (js ''SIGINT'');
                   waiting = Debug (js ''Waiting for Cachix daemon to exit...'')
               in case fails w [start, read, found] tail of
                    Some e \<Rightarrow> t = [start, read, found, tail, failure e, EndGroup]
                  | None \<Rightarrow>
                      t = [start, read, found, tail, TailOn (js ''line''), sending, kill, waiting,
                           TailUnwatch] @
                          (case fails w [start, read, found, tail, TailOn (js ''line''), sending,
                                         kill, waiting] TailUnwatch of
                             None \<Rightarrow> []
                           | Some e \<Rightarrow> [failure e]) @
                          [EndGroup])))"
proof -
  have d: "useDaemon inp = js ''true'' \<or> useDaemon inp \<noteq> js ''true''" by blast
  show ?thesis
    using upload_helper_iff [of w inp] upload_read_iff [of w inp]
      upload_skipped [of inp w] upload_without_credentials [of inp w]
      upload_direct_trace [of inp w] upload_daemon_trace [of inp w]
    by (simp add: Let_def push_call_def ENV_CACHIX_DAEMON_DIR_def failed_message_def
        skip_push_message_def no_credentials_message_def split: sum.splits option.splits)
qed


theorem upload_pushes_iff_enabled_with_credentials_witness:
  "skipPush inputs_skip = js ''true'' \<and>
   upload world0 inputs_skip initial =
     (Inr (), \<lparr>trace = [StartGroup (js ''Cachix: push''),
                         Info (js ''Pushing is disabled as skipPush is set to true''), EndGroup],
               unhandled = []\<rparr>) \<and>
   skipPush inputs_bare \<noteq> js ''true'' \<and> signingKey inputs_bare = [] \<and> authToken inputs_bare = [] \<and>
   upload world0 inputs_bare initial =
     (Inr (), \<lparr>trace = [StartGroup (js ''Cachix: push''),
                         Info (js ''Pushing is disabled as signingKey nor authToken are set (or are empty?) in your YAML file.''),
                         EndGroup],
               unhandled = []\<rparr>) \<and>
   skipPush inputs_direct \<noteq> js ''true'' \<and> signingKey inputs_direct \<noteq> [] \<and>
   useDaemon inputs_direct \<noteq> js ''true'' \<and>
   trace_of (upload world0 inputs_direct) =
     [StartGroup (js ''Cachix: push''),
      Exec (js ''/action/dist/push-paths.sh'') [js ''cachix'', [], js ''my-cache'', [], []],
      EndGroup] \<and>
   skipPush inputs0 \<noteq> js ''true'' \<and> signingKey inputs0 \<noteq> [] \<and> useDaemon inputs0 = js ''true'' \<and>
   trace_of (upload world_post inputs0) =
     [StartGroup (js ''Cachix: push''),
      ReadFile (js ''/tmp/cachix-daemon-AbCdEf/daemon.pid''),
      Debug (js ''Found Cachix daemon with pid 4242''),
      TailNew (js ''/tmp/cachix-daemon-AbCdEf/daemon.log'') True,
      TailOn (js ''line''),
      Debug (js ''Sending SIGINT to Cachix daemon with pid 4242''),
      Kill (Num 4242) (js ''SIGINT''),
      Debug (js ''Waiting for Cachix daemon to exit...''),
      TailUnwatch,
      EndGroup]"
proof -
  have s: "skipPush inputs_skip = js ''true''"
    by (simp add: inputs_skip_def)
  have b: "skipPush inputs_bare \<noteq> js ''true''" "signingKey inputs_bare = []" "authToken inputs_bare = []"
    by (simp_all add: inputs_bare_def inputs0_def js_def)
  have d: "skipPush inputs_direct \<noteq> js ''true''" "signingKey inputs_direct \<noteq> []"
    "useDaemon inputs_direct \<noteq> js ''true''"
    by (simp_all add: inputs_direct_def inputs0_def js_def)
  have p: "skipPush inputs0 \<noteq> js ''true''" "signingKey inputs0 \<noteq> []" "useDaemon inputs0 = js ''true''"
    by (simp_all add: inputs0_def js_def)
  have 1: "upload world0 inputs_skip initial =
     (Inr (), \<lparr>trace = [StartGroup (js ''Cachix: push''),
                         Info (js ''Pushing is disabled as skipPush is set to true''), EndGroup],
               unhandled = []\<rparr>)"
    using upload_pushes_iff_enabled_with_credentials [of world0 inputs_skip] s
    by (simp add: Let_def)
  have 2: "upload world0 inputs_bare initial =
     (Inr (), \<lparr>trace = [StartGroup (js ''Cachix: push''),
                         Info (js ''Pushing is disabled as signingKey nor authToken are set (or are empty?) in your YAML file.''),
                         EndGroup],
               unhandled = []\<rparr>)"
    using upload_pushes_iff_enabled_with_credentials [of world0 inputs_bare] b
    by (simp add: Let_def)
  have 3: "trace_of (upload world0 inputs_direct) =
     [StartGroup (js ''Cachix: push''),
      Exec (js ''/action/dist/push-paths.sh'') [js ''cachix'', [], js ''my-cache'', [], []],
      EndGroup]"
    using upload_pushes_iff_enabled_with_credentials [of world0 inputs_direct] d
    by (simp add: Let_def world0_def inputs_direct_def inputs0_def js_def)
  have 4: "trace_of (upload world_post inputs0) =
     [StartGroup (js ''Cachix: push''),
      ReadFile (js ''/tmp/cachix-daemon-AbCdEf/daemon.pid''),
      Debug (js ''Found Cachix daemon with pid 4242''),
      TailNew (js ''/tmp/cachix-daemon-AbCdEf/daemon.log'') True,
      TailOn (js ''line''),
      Debug (js ''Sending SIGINT to Cachix daemon with pid 4242''),
      Kill (Num 4242) (js ''SIGINT''),
      Debug (js ''Waiting for Cachix daemon to exit...''),
      TailUnwatch,
      EndGroup]"
    using upload_pushes_iff_enabled_with_credentials [of world_post inputs0] p
    unfolding world_post_def setup_world0
    by (simp add: Let_def sample_defs)
  from s b d p 1 2 3 4 show ?thesis by (intro conjI)
qed


section \<open>The flags are compared with \<open>true\<close>\<close>

text \<open>
  Claim C9. Each of the three flags is read by comparing it with the string \<open>true\<close>.
  A value \<open>v\<close> other than \<open>true\<close> gives the same steps as the value \<open>false\<close>. For
  \<open>useDaemon\<close>: a \<open>setup\<close> that does not fail has taken the store-path snapshot exactly
  when \<open>v\<close> is not \<open>true\<close> and has spawned the daemon exactly when \<open>v\<close> is \<open>true\<close>; a
  daemon call in either step means \<open>v\<close> is \<open>true\<close>; and \<open>upload\<close>, when pushing is
  enabled, calls the push helper exactly when \<open>v\<close> is not \<open>true\<close> and reads the pid file
  exactly when \<open>v\<close> is \<open>true\<close>. For \<open>skipAddingSubstituter\<close>: a \<open>setup\<close> that does not
  fail has registered the primary cache before the extra ones exactly when \<open>v\<close> is not
  \<open>true\<close>. For \<open>skipPush\<close>: with a credential, \<open>upload\<close> starts a push exactly when \<open>v\<close>
  is not \<open>true\<close>, and prints that pushing is disabled exactly when \<open>v\<close> is \<open>true\<close>.
\<close>

theorem flags_are_compared_with_true:
  "let snapshot = Exec (js ''sh'')
                    [js ''-c'', dirname w @ js ''/list-nix-store.sh > /tmp/store-path-pre-build''];
       helper = Exec (dirname w @ js ''/push-paths.sh'')
                  [js ''cachix'', cachixArgs inp, name inp, pathsToPush inp, pushFilter inp];
       read = ReadFile (or_undefined (env w (js ''CACHIX_DAEMON_DIR'')) @ js ''/daemon.pid'');
       extras = (if extraPullNames inp = [] then []
                 else map trim (split_on comma (extraPullNames inp)));
       credentials = (signingKey inp \<noteq> [] \<or> authToken inp \<noteq> []);
       sd = trace_of (setup_job w (inp\<lparr>useDaemon := v\<rparr>));
       ud = trace_of (upload w (inp\<lparr>useDaemon := v\<rparr>));
       sa = trace_of (setup_job w (inp\<lparr>skipAddingSubstituter := v\<rparr>));
       up = trace_of (upload w (inp\<lparr>skipPush := v\<rparr>))
   in (v \<noteq> js ''true'' \<longrightarrow>
         setup_job w (inp\<lparr>useDaemon := v\<rparr>) = setup_job w (inp\<lparr>useDaemon := js ''false''\<rparr>) \<and>
         upload w (inp\<lparr>useDaemon := v\<rparr>) = upload w (inp\<lparr>useDaemon := js ''false''\<rparr>) \<and>
         setup_job w (inp\<lparr>skipAddingSubstituter := v\<rparr>) =
           setup_job w (inp\<lparr>skipAddingSubstituter := js ''false''\<rparr>) \<and>
         upload w (inp\<lparr>skipPush := v\<rparr>) = upload w (inp\<lparr>skipPush := js ''false''\<rparr>)) \<and>
      (\<not> job_failed sd \<longrightarrow>
         (snapshot \<in> set sd \<longleftrightarrow> v \<noteq> js ''true'') \<and>
         ((\<exists>daemonDir log.
             Spawn (js ''cachix'')
               [js ''daemon'', js ''run'', js ''--socket'', daemonDir @ js ''/daemon.sock'']
               [Ignore, Fd log, Fd log] True \<in> set sd) \<longleftrightarrow> v = js ''true'')) \<and>
      (list_ex daemon_event (sd @ ud) \<longrightarrow> v = js ''true'') \<and>
      (skipPush inp \<noteq> js ''true'' \<and> credentials \<longrightarrow>
         (helper \<in> set ud \<longleftrightarrow> v \<noteq> js ''true'') \<and> (read \<in> set ud \<longleftrightarrow> v = js ''true'')) \<and>
      (\<not> job_failed sa \<longrightarrow>
         use_calls sa = (if v = js ''true'' then [] else [name inp]) @ extras) \<and>
      (credentials \<longrightarrow>
         ((helper \<in> set up \<or> read \<in> set up) \<longleftrightarrow> v \<noteq> js ''true'') \<and>
         (Info (js ''Pushing is disabled as skipPush is set to true'') \<in> set up \<longleftrightarrow>
            v = js ''true''))"
proof -
  let ?d = "inp\<lparr>useDaemon := v\<rparr>"
  let ?a = "inp\<lparr>skipAddingSubstituter := v\<rparr>"
  let ?p = "inp\<lparr>skipPush := v\<rparr>"
  have 1: "v \<noteq> js ''true'' \<longrightarrow>
         setup_job w ?d = setup_job w (inp\<lparr>useDaemon := js ''false''\<rparr>) \<and>
         upload w ?d = upload w (inp\<lparr>useDaemon := js ''false''\<rparr>) \<and>
         setup_job w ?a = setup_job w (inp\<lparr>skipAddingSubstituter := js ''false''\<rparr>) \<and>
         upload w ?p = upload w (inp\<lparr>skipPush := js ''false''\<rparr>)"
    using setup_job_flag_cong [of v w inp] upload_flag_cong [of v w inp] by blast
  have 2: "\<not> job_failed (trace_of (setup_job w ?d)) \<longrightarrow>
         (Exec (js ''sh'') [js ''-c'', dirname w @ js ''/list-nix-store.sh > /tmp/store-path-pre-build'']
            \<in> set (trace_of (setup_job w ?d)) \<longleftrightarrow> v \<noteq> js ''true'') \<and>
         ((\<exists>daemonDir log.
             Spawn (js ''cachix'')
               [js ''daemon'', js ''run'', js ''--socket'', daemonDir @ js ''/daemon.sock'']
               [Ignore, Fd log, Fd log] True \<in> set (trace_of (setup_job w ?d))) \<longleftrightarrow> v = js ''true'')"
    using snapshot_iff [of w ?d] spawn_iff [of w ?d]
    by (simp add: snapshot_call_def cachix_def spawn_args_def socket_path_def)
  have 3: "list_ex daemon_event (trace_of (setup_job w ?d) @ trace_of (upload w ?d)) \<longrightarrow>
      v = js ''true''"
    using no_daemon_events [of ?d w w] by auto
  have 4: "skipPush inp \<noteq> js ''true'' \<and> (signingKey inp \<noteq> [] \<or> authToken inp \<noteq> []) \<longrightarrow>
         (Exec (dirname w @ js ''/push-paths.sh'')
            [js ''cachix'', cachixArgs inp, name inp, pathsToPush inp, pushFilter inp]
            \<in> set (trace_of (upload w ?d)) \<longleftrightarrow> v \<noteq> js ''true'') \<and>
         (ReadFile (or_undefined (env w (js ''CACHIX_DAEMON_DIR'')) @ js ''/daemon.pid'')
            \<in> set (trace_of (upload w ?d)) \<longleftrightarrow> v = js ''true'')"
    using upload_helper_iff [of w ?d] upload_read_iff [of w ?d]
    by (simp add: push_call_def ENV_CACHIX_DAEMON_DIR_def)
  have 5: "\<not> job_failed (trace_of (setup_job w ?a)) \<longrightarrow>
         use_calls (trace_of (setup_job w ?a)) =
           (if v = js ''true'' then [] else [name inp]) @
           (if extraPullNames inp = [] then []
            else map trim (split_on comma (extraPullNames inp)))"
    using outcome_complete [OF setup_job_outcome [of w ?a]]
    by (simp add: expected_uses_def primary_use_def extra_uses_def)
  have 6: "signingKey inp \<noteq> [] \<or> authToken inp \<noteq> [] \<longrightarrow>
         ((Exec (dirname w @ js ''/push-paths.sh'')
             [js ''cachix'', cachixArgs inp, name inp, pathsToPush inp, pushFilter inp]
             \<in> set (trace_of (upload w ?p)) \<or>
           ReadFile (or_undefined (env w (js ''CACHIX_DAEMON_DIR'')) @ js ''/daemon.pid'')
             \<in> set (trace_of (upload w ?p))) \<longleftrightarrow> v \<noteq> js ''true'') \<and>
         (Info (js ''Pushing is disabled as skipPush is set to true'')
            \<in> set (trace_of (upload w ?p)) \<longleftrightarrow> v = js ''true'')"
    using upload_helper_iff [of w ?p] upload_read_iff [of w ?p] upload_skip_info_iff [of w ?p]
    by (auto simp: push_call_def ENV_CACHIX_DAEMON_DIR_def skip_push_message_def)
  from 1 2 3 4 5 6 show ?thesis
    unfolding Let_def by (intro conjI)
qed


theorem flags_are_compared_with_true_witness:
  "\<not> job_failed (trace_of (setup_job world0 (inputs0\<lparr>useDaemon := js ''true''\<rparr>))) \<and>
   (\<exists>daemonDir log.
      Spawn (js ''cachix'') [js ''daemon'', js ''run'', js ''--socket'', daemonDir @ js ''/daemon.sock'']
        [Ignore, Fd log, Fd log] True
        \<in> set (trace_of (setup_job world0 (inputs0\<lparr>useDaemon := js ''true''\<rparr>)))) \<and>
   Exec (js ''sh'') [js ''-c'', dirname world0 @ js ''/list-nix-store.sh > /tmp/store-path-pre-build'']
     \<notin> set (trace_of (setup_job world0 (inputs0\<lparr>useDaemon := js ''true''\<rparr>))) \<and>
   js ''True'' \<noteq> js ''true'' \<and>
   \<not> job_failed (trace_of (setup_job world0 (inputs0\<lparr>useDaemon := js ''True''\<rparr>))) \<and>
   Exec (js ''sh'') [js ''-c'', dirname world0 @ js ''/list-nix-store.sh > /tmp/store-path-pre-build'']
     \<in> set (trace_of (setup_job world0 (inputs0\<lparr>useDaemon := js ''True''\<rparr>))) \<and>
   \<not> list_ex daemon_event
       (trace_of (setup_job world0 (inputs0\<lparr>useDaemon := js ''True''\<rparr>)) @
        trace_of (upload world0 (inputs0\<lparr>useDaemon := js ''True''\<rparr>))) \<and>
   Exec (dirname world0 @ js ''/push-paths.sh'')
     [js ''cachix'', cachixArgs inputs0, name inputs0, pathsToPush inputs0, pushFilter inputs0]
     \<in> set (trace_of (upload world0 (inputs0\<lparr>useDaemon := js ''True''\<rparr>))) \<and>
   ReadFile (or_undefined (env world0 (js ''CACHIX_DAEMON_DIR'')) @ js ''/daemon.pid'')
     \<in> set (trace_of (upload world0 (inputs0\<lparr>useDaemon := js ''true''\<rparr>))) \<and>
   \<not> job_failed (trace_of (setup_job world0 (inputs0\<lparr>skipAddingSubstituter := js ''true''\<rparr>))) \<and>
   use_calls (trace_of (setup_job world0 (inputs0\<lparr>skipAddingSubstituter := js ''true''\<rparr>))) =
     [js ''a'', js ''b'', [], js ''c''] \<and>
   \<not> job_failed (trace_of (setup_job world0 (inputs0\<lparr>skipAddingSubstituter := js ''True''\<rparr>))) \<and>
   use_calls (trace_of (setup_job world0 (inputs0\<lparr>skipAddingSubstituter := js ''True''\<rparr>))) =
     [js ''my-cache'', js ''a'', js ''b'', [], js ''c''] \<and>
   Info (js ''Pushing is disabled as skipPush is set to true'')
     \<in> set (trace_of (upload world0 (inputs0\<lparr>skipPush := js ''true''\<rparr>))) \<and>
   ReadFile (or_undefined (env world0 (js ''CACHIX_DAEMON_DIR'')) @ js ''/daemon.pid'')
     \<notin> set (trace_of (upload world0 (inputs0\<lparr>skipPush := js ''true''\<rparr>))) \<and>
   ReadFile (or_undefined (env world0 (js ''CACHIX_DAEMON_DIR'')) @ js ''/daemon.pid'')
     \<in> set (trace_of (upload world0 (inputs0\<lparr>skipPush := js ''True''\<rparr>))) \<and>
   Info (js ''Pushing is disabled as skipPush is set to true'')
     \<notin> set (trace_of (upload world0 (inputs0\<lparr>skipPush := js ''True''\<rparr>))) \<and>
   js ''TRUE'' \<noteq> js ''true'' \<and> js ''1'' \<noteq> js ''true'' \<and> js ''yes'' \<noteq> js ''true'' \<and>
   [] \<noteq> js ''true'' \<and>
   setup_job world0 (inputs0\<lparr>useDaemon := js ''TRUE''\<rparr>) =
     setup_job world0 (inputs0\<lparr>useDaemon := js ''false''\<rparr>) \<and>
   setup_job world0 (inputs0\<lparr>useDaemon := js ''1''\<rparr>) =
     setup_job world0 (inputs0\<lparr>useDaemon := js ''false''\<rparr>) \<and>
   setup_job world0 (inputs0\<lparr>useDaemon := js ''yes''\<rparr>) =
     setup_job world0 (inputs0\<lparr>useDaemon := js ''false''\<rparr>) \<and>
   setup_job world0 (inputs0\<lparr>useDaemon := []\<rparr>) =
     setup_job world0 (inputs0\<lparr>useDaemon := js ''false''\<rparr>)"
proof -
  have v: "js ''True'' \<noteq> js ''true''" "js ''TRUE'' \<noteq> js ''true''" "js ''1'' \<noteq> js ''true''"
    "js ''yes'' \<noteq> js ''true''" "[] \<noteq> js ''true''"
    by (simp_all add: js_def)
  have i: "inputs0\<lparr>useDaemon := js ''true''\<rparr> = inputs0" "inputs0\<lparr>useDaemon := js ''True''\<rparr> = inputs_direct"
    "skipPush inputs0 \<noteq> js ''true''" "signingKey inputs0 \<noteq> []" "name inputs0 = js ''my-cache''"
    "extraPullNames inputs0 \<noteq> []"
    "map trim (split_on comma (extraPullNames inputs0)) = [js ''a'', js ''b'', [], js ''c'']"
    by (simp_all add: inputs0_def inputs_direct_def trim_def is_js_space_def comma_def js_def)
  have ok: "\<not> job_failed (trace_of (setup_job world0 (inputs0\<lparr>useDaemon := js ''true''\<rparr>)))"
    "\<not> job_failed (trace_of (setup_job world0 (inputs0\<lparr>useDaemon := js ''True''\<rparr>)))"
    unfolding i
    by (simp_all add: setup_world0 setup_world0_direct job_failed_def auth_call_def use_call_def
        snapshot_call_def)
  have oka: "\<not> job_failed (trace_of (setup_job world0 (inputs0\<lparr>skipAddingSubstituter := js ''true''\<rparr>)))"
    "\<not> job_failed (trace_of (setup_job world0 (inputs0\<lparr>skipAddingSubstituter := js ''True''\<rparr>)))"
    by (simp_all add: run_defs sample_defs job_failed_def)
  note T = flags_are_compared_with_true [of world0 inputs0 "js ''true''", unfolded Let_def]
  note U = flags_are_compared_with_true [of world0 inputs0 "js ''True''", unfolded Let_def]
  have d1: "\<exists>daemonDir log.
      Spawn (js ''cachix'') [js ''daemon'', js ''run'', js ''--socket'', daemonDir @ js ''/daemon.sock'']
        [Ignore, Fd log, Fd log] True
        \<in> set (trace_of (setup_job world0 (inputs0\<lparr>useDaemon := js ''true''\<rparr>)))"
    "Exec (js ''sh'') [js ''-c'', dirname world0 @ js ''/list-nix-store.sh > /tmp/store-path-pre-build'']
     \<notin> set (trace_of (setup_job world0 (inputs0\<lparr>useDaemon := js ''true''\<rparr>)))"
    using conj_parts(2) [OF T] ok(1) by blast+
  have d2: "Exec (js ''sh'') [js ''-c'', dirname world0 @ js ''/list-nix-store.sh > /tmp/store-path-pre-build'']
     \<in> set (trace_of (setup_job world0 (inputs0\<lparr>useDaemon := js ''True''\<rparr>)))"
    using conj_parts(2) [OF U] ok(2) v(1) by blast
  have d3: "\<not> list_ex daemon_event
       (trace_of (setup_job world0 (inputs0\<lparr>useDaemon := js ''True''\<rparr>)) @
        trace_of (upload world0 (inputs0\<lparr>useDaemon := js ''True''\<rparr>)))"
    using conj_parts(3) [OF U] v(1) by blast
  have d4: "Exec (dirname world0 @ js ''/push-paths.sh'')
     [js ''cachix'', cachixArgs inputs0, name inputs0, pathsToPush inputs0, pushFilter inputs0]
     \<in> set (trace_of (upload world0 (inputs0\<lparr>useDaemon := js ''True''\<rparr>)))"
    using conj_parts(4) [OF U] v(1) i(3,4) by blast
  have d5: "ReadFile (or_undefined (env world0 (js ''CACHIX_DAEMON_DIR'')) @ js ''/daemon.pid'')
     \<in> set (trace_of (upload world0 (inputs0\<lparr>useDaemon := js ''true''\<rparr>)))"
    using conj_parts(4) [OF T] i(3,4) by blast
  have a1: "use_calls (trace_of (setup_job world0 (inputs0\<lparr>skipAddingSubstituter := js ''true''\<rparr>))) =
     [js ''a'', js ''b'', [], js ''c'']"
    using conj_parts(5) [OF T] oka(1) i(6,7) by simp
  have a2: "use_calls (trace_of (setup_job world0 (inputs0\<lparr>skipAddingSubstituter := js ''True''\<rparr>))) =
     [js ''my-cache'', js ''a'', js ''b'', [], js ''c'']"
    using conj_parts(5) [OF U] oka(2) i(5,6,7) v(1) by simp
  have p1: "Info (js ''Pushing is disabled as skipPush is set to true'')
     \<in> set (trace_of (upload world0 (inputs0\<lparr>skipPush := js ''true''\<rparr>)))"
    "ReadFile (or_undefined (env world0 (js ''CACHIX_DAEMON_DIR'')) @ js ''/daemon.pid'')
     \<notin> set (trace_of (upload world0 (inputs0\<lparr>skipPush := js ''true''\<rparr>)))"
    using conj_parts(6) [OF T] i(4) by blast+
  have p2: "ReadFile (or_undefined (env world0 (js ''CACHIX_DAEMON_DIR'')) @ js ''/daemon.pid'')
     \<in> set (trace_of (upload world0 (inputs0\<lparr>skipPush := js ''True''\<rparr>)))"
    "Info (js ''Pushing is disabled as skipPush is set to true'')
     \<notin> set (trace_of (upload world0 (inputs0\<lparr>skipPush := js ''True''\<rparr>)))"
  proof -
    have r: "(inputs0\<lparr>skipPush := js ''True''\<rparr>)\<lparr>useDaemon := js ''true''\<rparr> =
        inputs0\<lparr>skipPush := js ''True''\<rparr>"
      "skipPush (inputs0\<lparr>skipPush := js ''True''\<rparr>) \<noteq> js ''true''"
      "signingKey (inputs0\<lparr>skipPush := js ''True''\<rparr>) \<noteq> []"
      by (simp_all add: inputs0_def js_def)
    note P = flags_are_compared_with_true
      [of world0 "inputs0\<lparr>skipPush := js ''True''\<rparr>" "js ''true''", unfolded Let_def r(1)]
    from conj_parts(4) [OF P] r(2,3)
    show "ReadFile (or_undefined (env world0 (js ''CACHIX_DAEMON_DIR'')) @ js ''/daemon.pid'')
     \<in> set (trace_of (upload world0 (inputs0\<lparr>skipPush := js ''True''\<rparr>)))"
      by blast
    from conj_parts(6) [OF U] i(4) v(1)
    show "Info (js ''Pushing is disabled as skipPush is set to true'')
     \<notin> set (trace_of (upload world0 (inputs0\<lparr>skipPush := js ''True''\<rparr>)))"
      by blast
  qed
  have e: "setup_job world0 (inputs0\<lparr>useDaemon := js ''TRUE''\<rparr>) =
     setup_job world0 (inputs0\<lparr>useDaemon := js ''false''\<rparr>)"
    "setup_job world0 (inputs0\<lparr>useDaemon := js ''1''\<rparr>) =
     setup_job world0 (inputs0\<lparr>useDaemon := js ''false''\<rparr>)"
    "setup_job world0 (inputs0\<lparr>useDaemon := js ''yes''\<rparr>) =
     setup_job world0 (inputs0\<lparr>useDaemon := js ''false''\<rparr>)"
    "setup_job world0 (inputs0\<lparr>useDaemon := []\<rparr>) =
     setup_job world0 (inputs0\<lparr>useDaemon := js ''false''\<rparr>)"
    using conj_parts(1) [OF flags_are_compared_with_true [of world0 inputs0 "js ''TRUE''", unfolded Let_def]]
      conj_parts(1) [OF flags_are_compared_with_true [of world0 inputs0 "js ''1''", unfolded Let_def]]
      conj_parts(1) [OF flags_are_compared_with_true [of world0 inputs0 "js ''yes''", unfolded Let_def]]
      conj_parts(1) [OF flags_are_compared_with_true [of world0 inputs0 "[]", unfolded Let_def]]
      v by blast+
  from ok d1 v d2 d3 d4 d5 oka a1 a2 p1 p2 e show ?thesis
    by (intro conjI)
qed


section \<open>The hook script and the daemon\<close>

text \<open>
  Claim C5. There is one daemon directory for the whole trace of \<open>setup\<close>: every
  \<open>spawn\<close> passes the socket path in that directory after \<open>--socket\<close>, and every
  file written other than the pid file is the hook script in that directory, whose text
  ends with \<open>--socket\<close>, the same socket path, the \<open>name\<close> input and \<open>$OUT_PATHS\<close>.
\<close>

theorem hook_names_the_daemon_socket:
  "\<exists>daemonDir.
     (\<forall>c a io det. Spawn c a io det \<in> set (trace_of (setup_job w inp)) \<longrightarrow>
        c = cachix \<and> a = [js ''daemon'', js ''run'', js ''--socket'', daemonDir @ js ''/daemon.sock'']) \<and>
     (\<forall>p content. WriteFile p content \<in> set (trace_of (setup_job w inp)) \<and>
        p \<noteq> daemonDir @ js ''/daemon.pid'' \<longrightarrow>
        p = daemonDir @ js ''/cachix-post-build-hook.sh'' \<and>
        (\<exists>before. content =
           before @ js ''--socket '' @ (daemonDir @ js ''/daemon.sock'') @ js ''         '' @
           name inp @ js '' $OUT_PATHS'' @ js [CHR 0x0A] @ js ''     ''))"
proof -
  from setup_job_one_dir [of inp w] obtain d
    where d: "list_all (about_dir inp d) (trace_of (setup_job w inp))"
    unfolding one_dir_def by blast
  have "c = cachix \<and> a = [js ''daemon'', js ''run'', js ''--socket'', d @ js ''/daemon.sock'']"
    if "Spawn c a io det \<in> set (trace_of (setup_job w inp))" for c a io det
  proof -
    from d that have "about_dir inp d (Spawn c a io det)" unfolding list_all_iff by blast
    then show ?thesis by (simp add: spawn_args_def socket_path_def)
  qed
  moreover have "p = d @ js ''/cachix-post-build-hook.sh'' \<and>
        (\<exists>before. content =
           before @ js ''--socket '' @ (d @ js ''/daemon.sock'') @ js ''         '' @
           name inp @ js '' $OUT_PATHS'' @ js [CHR 0x0A] @ js ''     '')"
    if "WriteFile p content \<in> set (trace_of (setup_job w inp))" "p \<noteq> d @ js ''/daemon.pid''"
    for p content
  proof -
    from d that(1) have "about_dir inp d (WriteFile p content)" unfolding list_all_iff by blast
    with that(2) obtain bin where p: "p = hook_path d" and c: "content = hook_script bin d (name inp)"
      by auto
    from c have "\<exists>before. content =
           before @ js ''--socket '' @ (d @ js ''/daemon.sock'') @ js ''         '' @
           name inp @ js '' $OUT_PATHS'' @ js [CHR 0x0A] @ js ''     ''"
      unfolding hook_script_shape socket_path_def by blast
    with p show ?thesis by (simp add: hook_path_def)
  qed
  ultimately show ?thesis by blast
qed

theorem hook_names_the_daemon_socket_witness:
  "Spawn cachix [js ''daemon'', js ''run'', js ''--socket'', js ''/tmp/cachix-daemon-AbCdEf/daemon.sock'']
     [Ignore, Fd 3, Fd 3] True \<in> set (trace_of (setup_job world0 inputs0)) \<and>
   (\<exists>content before.
      WriteFile (js ''/tmp/cachix-daemon-AbCdEf/cachix-post-build-hook.sh'') content
        \<in> set (trace_of (setup_job world0 inputs0)) \<and>
      content = before @ js ''--socket /tmp/cachix-daemon-AbCdEf/daemon.sock         '' @
        name inputs0 @ js '' $OUT_PATHS'' @ js [CHR 0x0A] @ js ''     '')"
proof -
  let ?t = "trace_of (setup_job world0 inputs0)"
  let ?dir = "js ''/tmp/cachix-daemon-AbCdEf''"
  have s: "Spawn cachix [js ''daemon'', js ''run'', js ''--socket'', js ''/tmp/cachix-daemon-AbCdEf/daemon.sock'']
     [Ignore, Fd 3, Fd 3] True \<in> set ?t"
    by (simp add: setup_world0 spawn_args_def socket_path_def js_def)
  have h: "WriteFile (js ''/tmp/cachix-daemon-AbCdEf/cachix-post-build-hook.sh'')
      (hook_script (js ''/usr/bin/cachix'') ?dir (js ''my-cache'')) \<in> set ?t"
    by (simp add: setup_world0 hook_path_def js_def)
  from hook_names_the_daemon_socket [of world0 inputs0] obtain d where
    1: "\<And>c a io det. Spawn c a io det \<in> set ?t \<Longrightarrow>
          a = [js ''daemon'', js ''run'', js ''--socket'', d @ js ''/daemon.sock'']"
    and 2: "\<And>p content. WriteFile p content \<in> set ?t \<Longrightarrow> p \<noteq> d @ js ''/daemon.pid'' \<Longrightarrow>
        (\<exists>before. content =
           before @ js ''--socket '' @ (d @ js ''/daemon.sock'') @ js ''         '' @
           name inputs0 @ js '' $OUT_PATHS'' @ js [CHR 0x0A] @ js ''     '')"
    by blast
  from 1 [OF s] have "d @ js ''/daemon.sock'' = ?dir @ js ''/daemon.sock''"
    by (simp add: js_def)
  then have d: "d = ?dir" by simp
  have "js ''/tmp/cachix-daemon-AbCdEf/cachix-post-build-hook.sh'' \<noteq> d @ js ''/daemon.pid''"
    unfolding d by (simp add: js_def)
  from 2 [OF h this] obtain before where
    "hook_script (js ''/usr/bin/cachix'') ?dir (js ''my-cache'') =
       before @ js ''--socket '' @ (d @ js ''/daemon.sock'') @ js ''         '' @
           name inputs0 @ js '' $OUT_PATHS'' @ js [CHR 0x0A] @ js ''     ''"
    by blast
  then have "hook_script (js ''/usr/bin/cachix'') ?dir (js ''my-cache'') =
       before @ js ''--socket /tmp/cachix-daemon-AbCdEf/daemon.sock         '' @
        name inputs0 @ js '' $OUT_PATHS'' @ js [CHR 0x0A] @ js ''     ''"
    unfolding d by (simp add: js_def)
  with s h show ?thesis by blast
qed

section \<open>The daemon directory from \<open>setup\<close> to \<open>upload\<close>\<close>

text \<open>
  Claim C7. When \<open>setup\<close> has exported the directory \<open>d\<close> under the name
  \<open>CACHIX_DAEMON_DIR\<close> and \<open>upload\<close> starts in the environment that these exports
  leave, the pid file that \<open>upload\<close> reads and the log file that it tails are the
  files \<open>daemon.pid\<close> and \<open>daemon.log\<close> of \<open>d\<close>.
\<close>

theorem daemon_dir_handoff:
  assumes "ExportVariable ENV_CACHIX_DAEMON_DIR d \<in> set (trace_of (setup_job w inp))"
    and "env w' = exported (trace_of (setup_job w inp)) (env w)"
  shows "(\<forall>p. ReadFile p \<in> set (trace_of (upload w' inp')) \<longrightarrow> p = d @ js ''/daemon.pid'') \<and>
         (\<forall>p b. TailNew p b \<in> set (trace_of (upload w' inp')) \<longrightarrow> p = d @ js ''/daemon.log'')"
proof -
  let ?t = "trace_of (setup_job w inp)"
  from setup_job_one_dir [of inp w] obtain d'
    where d': "list_all (about_dir inp d') ?t"
    unfolding one_dir_def by blast
  with assms(1) have "about_dir inp d' (ExportVariable ENV_CACHIX_DAEMON_DIR d)"
    unfolding list_all_iff by blast
  then have eq: "d' = d" by simp
  have "list_all (\<lambda>e. \<forall>v. e = ExportVariable ENV_CACHIX_DAEMON_DIR v \<longrightarrow> v = d) ?t"
    using d' unfolding eq list_all_iff by auto
  from exported_lookup [OF this, of "env w"] assms
  have "env w' ENV_CACHIX_DAEMON_DIR = Some d" by auto
  with emits_trace_of [OF emits_upload_reads [of w' inp']]
  have r: "list_all (reads_from d) (trace_of (upload w' inp'))" by simp
  show ?thesis
  proof (intro conjI allI impI)
    fix p assume "ReadFile p \<in> set (trace_of (upload w' inp'))"
    with r have "reads_from d (ReadFile p)" unfolding list_all_iff by blast
    then show "p = d @ js ''/daemon.pid''" by simp
  next
    fix p b assume "TailNew p b \<in> set (trace_of (upload w' inp'))"
    with r have "reads_from d (TailNew p b)" unfolding list_all_iff by blast
    then show "p = d @ js ''/daemon.log''" by simp
  qed
qed

theorem daemon_dir_handoff_witness:
  "ExportVariable ENV_CACHIX_DAEMON_DIR (js ''/tmp/cachix-daemon-AbCdEf'')
     \<in> set (trace_of (setup_job world0 inputs0)) \<and>
   env world_post = exported (trace_of (setup_job world0 inputs0)) (env world0) \<and>
   ReadFile (js ''/tmp/cachix-daemon-AbCdEf'' @ js ''/daemon.pid'')
     \<in> set (trace_of (upload world_post inputs0)) \<and>
   TailNew (js ''/tmp/cachix-daemon-AbCdEf'' @ js ''/daemon.log'') True
     \<in> set (trace_of (upload world_post inputs0))"
proof -
  have 1: "ExportVariable ENV_CACHIX_DAEMON_DIR (js ''/tmp/cachix-daemon-AbCdEf'')
     \<in> set (trace_of (setup_job world0 inputs0))"
    by (simp add: setup_world0)
  have 2: "env world_post = exported (trace_of (setup_job world0 inputs0)) (env world0)"
    by (simp add: world_post_def)
  have 3: "ReadFile (js ''/tmp/cachix-daemon-AbCdEf/daemon.pid'') \<in> set (trace_of (upload world_post inputs0))"
    "TailNew (js ''/tmp/cachix-daemon-AbCdEf/daemon.log'') True \<in> set (trace_of (upload world_post inputs0))"
    by (simp_all add: upload_world_post)
  from daemon_dir_handoff [OF 1 2, of inputs0] 3
  have "js ''/tmp/cachix-daemon-AbCdEf/daemon.pid'' = js ''/tmp/cachix-daemon-AbCdEf'' @ js ''/daemon.pid''"
    "js ''/tmp/cachix-daemon-AbCdEf/daemon.log'' = js ''/tmp/cachix-daemon-AbCdEf'' @ js ''/daemon.log''"
    by blast+
  with 1 2 3 show ?thesis by simp
qed

section \<open>The text of the hook script\<close>

text \<open>
  Claim C2. On the sample run in daemon mode, \<open>setup\<close> writes the hook script whose
  lines are listed below: it runs \<open>set -f\<close>, assigns the empty string to \<open>IFS\<close>, and
  passes \<open>$OUT_PATHS\<close> unquoted to the one \<open>exec\<close> command. (A POSIX shell splits no
  expansion into fields while \<open>IFS\<close> is empty.)
\<close>

theorem hook_script_clears_IFS:
  "WriteFile (js ''/tmp/cachix-daemon-AbCdEf/cachix-post-build-hook.sh'')
     (hook_script (js ''/usr/bin/cachix'') (js ''/tmp/cachix-daemon-AbCdEf'') (js ''my-cache''))
     \<in> set (trace_of (setup_job world0 inputs0)) \<and>
   script_lines (hook_script (js ''/usr/bin/cachix'') (js ''/tmp/cachix-daemon-AbCdEf'') (js ''my-cache'')) =
     [js '''',
      js ''#!/bin/sh'',
      js '''',
      js ''set -eux'',
      js ''set -f #disable globbing'',
      js ''export IFS='' @ js [CHR 0x27, CHR 0x27],
      js '''',
      js ''exec /usr/bin/cachix daemon push         --socket /tmp/cachix-daemon-AbCdEf/daemon.sock         my-cache $OUT_PATHS'',
      js '''']"
proof -
  have "WriteFile (js ''/tmp/cachix-daemon-AbCdEf/cachix-post-build-hook.sh'')
     (hook_script (js ''/usr/bin/cachix'') (js ''/tmp/cachix-daemon-AbCdEf'') (js ''my-cache''))
     \<in> set (trace_of (setup_job world0 inputs0))"
    by (simp add: setup_world0 hook_path_def js_def)
  moreover have "script_lines (hook_script (js ''/usr/bin/cachix'') (js ''/tmp/cachix-daemon-AbCdEf'') (js ''my-cache'')) =
     [js '''',
      js ''#!/bin/sh'',
      js '''',
      js ''set -eux'',
      js ''set -f #disable globbing'',
      js ''export IFS='' @ js [CHR 0x27, CHR 0x27],
      js '''',
      js ''exec /usr/bin/cachix daemon push         --socket /tmp/cachix-daemon-AbCdEf/daemon.sock         my-cache $OUT_PATHS'',
      js '''']"
    by (simp add: script_lines_def hook_script_def js_def)
  ultimately show ?thesis by simp
qed

section \<open>A failure that \<open>setup\<close> does not report\<close>

text \<open>
  Claim C4. On the runner where \<open>chmod\<close> of the hook script is rejected and every
  other call succeeds, \<open>setup\<close> in daemon mode issues the \<open>chmod\<close>, its error stays
  unhandled, and no failure annotation is in the trace. (The errors thrown inside the
  \<open>try\<close> block are reported: \<open>thrown_error_is_reported\<close>.)
\<close>

theorem chmod_rejection_is_not_reported:
  "Chmod (js ''/tmp/cachix-daemon-AbCdEf/cachix-post-build-hook.sh'') mode_755
     \<in> set (trace_of (setup_job world_chmod inputs0)) \<and>
   fails world_chmod [] (Chmod (js ''/tmp/cachix-daemon-AbCdEf/cachix-post-build-hook.sh'') mode_755)
     = Some chmod_error \<and>
   unhandled (run (setup_job world_chmod inputs0)) = [chmod_error] \<and>
   \<not> job_failed (trace_of (setup_job world_chmod inputs0))"
  by (simp add: run_defs sample_defs job_failed_def)


end
